(* ===== verification/Prelude.thy ===== *)
theory Prelude
  imports Complex_Main
begin

text \<open>
  Shared vocabulary of the development: the Python exceptions the script can
  raise, results as a sum type with its sequencing operator, list subscripts
  that raise \<open>IndexError\<close>, and the lemma collections the component theories
  add to.

  \<^item> \<open>py_eval\<close> collects the defining equations that \<open>simp\<close> needs to run the
    model on a concrete input (used by the witnesses and the test vectors).
  \<^item> \<open>py_wf\<close> collects the well-formedness facts of the floating-point
    operations, so that \<open>simp add: py_wf\<close> discharges side conditions.
\<close>

named_theorems py_eval "equations that evaluate the model on concrete inputs"
named_theorems py_wf "well-formedness of floating-point results"

section \<open>Exceptions and results\<close>

text \<open>
  The exception classes that reach the top level of
  \<^verbatim>\<open>area_w_arguments.py\<close>: \<^verbatim>\<open>sys.argv[i]\<close> raises \<open>IndexError\<close>,
  \<^verbatim>\<open>float(x)\<close> raises \<open>ValueError\<close>, \<^verbatim>\<open>x**2\<close> raises \<open>OverflowError\<close>,
  reading an unbound global raises \<open>NameError\<close> and \<^verbatim>\<open>exit()\<close> raises
  \<open>SystemExit\<close>.
\<close>

datatype exn = IndexError | ValueError | OverflowError | NameError | SystemExit

type_synonym 'a result = "exn + 'a"

definition bind_result :: "'a result \<Rightarrow> ('a \<Rightarrow> 'b result) \<Rightarrow> 'b result" where
  "bind_result r f = (case r of Inl e \<Rightarrow> Inl e | Inr v \<Rightarrow> f v)"

definition is_ok :: "'a result \<Rightarrow> bool" where
  "is_ok r = (case r of Inl _ \<Rightarrow> False | Inr _ \<Rightarrow> True)"

lemma bind_result_Inl [simp]: "bind_result (Inl e) f = Inl e"
  by (simp add: bind_result_def)

lemma bind_result_Inr [simp]: "bind_result (Inr v) f = f v"
  by (simp add: bind_result_def)

lemma bind_result_return [simp]: "bind_result r Inr = r"
  by (cases r) simp_all

lemma bind_result_assoc:
  "bind_result (bind_result r f) g = bind_result r (\<lambda>v. bind_result (f v) g)"
  by (cases r) simp_all

lemma bind_result_eq_Inr_iff:
  "bind_result r f = Inr y \<longleftrightarrow> (\<exists>v. r = Inr v \<and> f v = Inr y)"
  by (cases r) simp_all

lemma bind_result_eq_Inl_iff:
  "bind_result r f = Inl e \<longleftrightarrow> r = Inl e \<or> (\<exists>v. r = Inr v \<and> f v = Inl e)"
  by (cases r) simp_all

lemma is_ok_simps [simp]: "is_ok (Inr v)" "\<not> is_ok (Inl e)"
  by (simp_all add: is_ok_def)

lemma is_ok_iff: "is_ok r \<longleftrightarrow> (\<exists>v. r = Inr v)"
  by (cases r) simp_all

lemma is_ok_bind_result:
  "is_ok (bind_result r f) \<longleftrightarrow> (\<exists>v. r = Inr v \<and> is_ok (f v))"
  by (cases r) simp_all

section \<open>List subscripts\<close>

text \<open>
  \<^verbatim>\<open>xs[i]\<close> for a literal index \<open>i \<ge> 0\<close>: the element, or \<open>IndexError\<close> when
  the list is too short.  (HOL's \<open>xs ! i\<close> is unspecified there.)
\<close>

definition subscript :: "'a list \<Rightarrow> nat \<Rightarrow> 'a result" where
  "subscript xs i = (if i < length xs then Inr (xs ! i) else Inl IndexError)"

lemma subscript_Nil [simp]: "subscript [] i = Inl IndexError"
  by (simp add: subscript_def)

lemma subscript_Cons_0 [simp]: "subscript (x # xs) 0 = Inr x"
  by (simp add: subscript_def)

lemma subscript_Cons_Suc [simp]: "subscript (x # xs) (Suc i) = subscript xs i"
  by (simp add: subscript_def)

lemma subscript_Cons_numeral [simp]:
  "subscript (x # xs) (numeral k) = subscript xs (pred_numeral k)"
  by (simp add: subscript_def nth_Cons_numeral)

lemma subscript_1 [simp]: "subscript (x # xs) 1 = subscript xs 0"
  using subscript_Cons_Suc [of x xs 0] by simp

lemma subscript_eq_Inr_iff: "subscript xs i = Inr v \<longleftrightarrow> i < length xs \<and> xs ! i = v"
  by (auto simp: subscript_def)

lemma subscript_eq_Inl_iff: "subscript xs i = Inl e \<longleftrightarrow> length xs \<le> i \<and> e = IndexError"
  by (auto simp: subscript_def)

lemma is_ok_subscript [simp]: "is_ok (subscript xs i) \<longleftrightarrow> i < length xs"
  by (simp add: subscript_def)

section \<open>Characters and digits\<close>

text \<open>
  Strings are \<^typ>\<open>string\<close>, one \<^typ>\<open>char\<close> per code point below 256; the
  command-line arguments the claims speak about are ASCII.
\<close>

definition newline :: char where
  "newline = CHR 0x0A"

definition is_digit :: "char \<Rightarrow> bool" where
  "is_digit c \<longleftrightarrow> (48::nat) \<le> of_char c \<and> of_char c \<le> (57::nat)"

definition digit_val :: "char \<Rightarrow> nat" where
  "digit_val c = of_char c - 48"

definition digit_char :: "nat \<Rightarrow> char" where
  "digit_char d = char_of (48 + d)"

lemma digit_char_simps [py_eval]:
  "digit_char 0 = CHR ''0''" "digit_char 1 = CHR ''1''" "digit_char 2 = CHR ''2''"
  "digit_char 3 = CHR ''3''" "digit_char 4 = CHR ''4''" "digit_char 5 = CHR ''5''"
  "digit_char 6 = CHR ''6''" "digit_char 7 = CHR ''7''" "digit_char 8 = CHR ''8''"
  "digit_char 9 = CHR ''9''" "digit_char (Suc 0) = CHR ''1''"
  by (simp_all add: digit_char_def char_of_def bit_iff_odd)

lemma digit_val_digit_char [simp]: "d < 10 \<Longrightarrow> digit_val (digit_char d) = d"
  by (simp add: digit_val_def digit_char_def)

lemma is_digit_digit_char [simp]: "d < 10 \<Longrightarrow> is_digit (digit_char d)"
  by (simp add: is_digit_def digit_char_def)

lemma digit_val_less_10: "is_digit c \<Longrightarrow> digit_val c < 10"
  by (auto simp: is_digit_def digit_val_def)

lemma digit_char_digit_val: "is_digit c \<Longrightarrow> digit_char (digit_val c) = c"
  by (simp add: is_digit_def digit_val_def digit_char_def)

lemma digit_char_inject: "a < 10 \<Longrightarrow> b < 10 \<Longrightarrow> digit_char a = digit_char b \<longleftrightarrow> a = b"
  by (metis digit_val_digit_char)

lemma is_digit_not_special:
  "is_digit c \<Longrightarrow>
     c \<noteq> newline \<and> c \<noteq> CHR ''-'' \<and> c \<noteq> CHR ''+'' \<and> c \<noteq> CHR ''.'' \<and> c \<noteq> CHR ''_''"
  by (auto simp: is_digit_def newline_def)

end
