(* ===== verification/Runtime.thy ===== *)
theory Runtime
  imports Prelude
begin

text \<open>
  The interface between the script and Python's \<^verbatim>\<open>float\<close> type: the five
  operations that \<^verbatim>\<open>area_w_arguments.py\<close> applies to floats, over a type
  variable \<open>'f\<close> of float values.  \<open>Area\<close> and \<open>Cli\<close> are stated over any
  \<open>'f float_ops\<close>; \<open>Binary64\<close>, \<open>FloatParse\<close> and \<open>FloatFormat\<close> implement it, and the
  root theory puts the implementation together.

  \<^item> \<open>fl_parse s\<close> is \<^verbatim>\<open>float(s)\<close> for a string \<open>s\<close> (lines 24 and 28);
  \<^item> \<open>fl_lit m k\<close> is the float literal with decimal digits \<open>m\<close>, the last \<open>k\<close>
    of them after the point: \<^verbatim>\<open>3.14159\<close> is \<open>fl_lit 314159 5\<close> (line 15);
  \<^item> \<open>fl_pow2 x\<close> is \<^verbatim>\<open>x**2\<close> (lines 9 and 16), which can raise;
  \<^item> \<open>fl_mul a b\<close> is \<^verbatim>\<open>a * b\<close> (line 16);
  \<^item> \<open>fl_fmt2 a\<close> is the text that \<^verbatim>\<open>'%.2f' % a\<close> produces (lines 24 and 28).
\<close>

record 'f float_ops =
  fl_parse :: "string \<Rightarrow> 'f result"
  fl_lit :: "nat \<Rightarrow> nat \<Rightarrow> 'f"
  fl_pow2 :: "'f \<Rightarrow> 'f result"
  fl_mul :: "'f \<Rightarrow> 'f \<Rightarrow> 'f"
  fl_fmt2 :: "'f \<Rightarrow> string"

end
