(* ===== verification/Area.thy ===== *)
theory Area
  imports Runtime
begin

text \<open>
  The two functions of \<^verbatim>\<open>area_w_arguments.py\<close>, over any implementation of
  the float operations.  Both return a result: \<^verbatim>\<open>x**2\<close> can raise, and the
  exception leaves the function.
\<close>

section \<open>square (lines 5-9) and circle (lines 11-16)\<close>

definition square :: "'f float_ops \<Rightarrow> 'f \<Rightarrow> 'f result" where
  "square ops x = fl_pow2 ops x"

definition circle :: "'f float_ops \<Rightarrow> 'f \<Rightarrow> 'f result" where
  "circle ops r =
     (let pi = fl_lit ops 314159 5
      in bind_result (fl_pow2 ops r) (\<lambda>r2. Inr (fl_mul ops pi r2)))"

section \<open>Behaviour on every branch\<close>

lemma circle_Inr:
  "fl_pow2 ops r = Inr r2 \<Longrightarrow> circle ops r = Inr (fl_mul ops (fl_lit ops 314159 5) r2)"
  by (simp add: circle_def)

lemma circle_Inl: "fl_pow2 ops r = Inl e \<Longrightarrow> circle ops r = Inl e"
  by (simp add: circle_def)

lemma circle_eq_Inr_iff:
  "circle ops r = Inr a \<longleftrightarrow>
     (\<exists>r2. fl_pow2 ops r = Inr r2 \<and> a = fl_mul ops (fl_lit ops 314159 5) r2)"
  by (auto simp: circle_def bind_result_eq_Inr_iff)

lemma circle_raises_iff_square_raises:
  "circle ops r = Inl e \<longleftrightarrow> square ops r = Inl e"
  by (simp add: circle_def square_def bind_result_eq_Inl_iff)

lemma is_ok_circle_iff: "is_ok (circle ops r) \<longleftrightarrow> is_ok (square ops r)"
  by (cases "fl_pow2 ops r") (simp_all add: circle_def square_def)

end
