(* ===== verification/Cli.thy ===== *)
theory Cli
  imports Area
begin

text \<open>
  The top-level statements of \<^verbatim>\<open>area_w_arguments.py\<close> (lines 18-31) as
  state transformers on the process state: the argument vector, what has been
  written to standard output, the global variable \<^verbatim>\<open>x\<close>, and the exception
  that ended the run, if any.  A statement that raises stores the exception;
  \<open>seq_stmt\<close> then skips what follows, as the interpreter does for an uncaught
  exception.  Every read that can raise in Python is a \<open>result\<close> here.
\<close>

section \<open>Process state and statements\<close>

record proc =
  argv :: "string list"
  stdout :: string
  var_x :: "string option"
  raised :: "exn option"

type_synonym stmt = "proc \<Rightarrow> proc"
type_synonym 'a expr = "proc \<Rightarrow> 'a result"

definition init_proc :: "string list \<Rightarrow> proc" where
  "init_proc av = \<lparr>argv = av, stdout = [], var_x = None, raised = None\<rparr>"

definition print_line :: "string \<Rightarrow> stmt" where
  "print_line s p = p\<lparr>stdout := stdout p @ s @ [newline]\<rparr>"

definition raise_exn :: "exn \<Rightarrow> stmt" where
  "raise_exn e p = p\<lparr>raised := Some e\<rparr>"

definition skip_stmt :: stmt where
  "skip_stmt p = p"

definition seq_stmt :: "stmt \<Rightarrow> stmt \<Rightarrow> stmt" where
  "seq_stmt s1 s2 p = (let p' = s1 p in if raised p' = None then s2 p' else p')"

definition eval_then :: "'a expr \<Rightarrow> ('a \<Rightarrow> stmt) \<Rightarrow> stmt" where
  "eval_then ex k p = (case ex p of Inl e \<Rightarrow> raise_exn e p | Inr v \<Rightarrow> k v p)"

definition sys_argv :: "nat \<Rightarrow> string expr" where
  "sys_argv i p = subscript (argv p) i"

definition read_x :: "string expr" where
  "read_x p = (case var_x p of None \<Rightarrow> Inl NameError | Some v \<Rightarrow> Inr v)"

definition assign_x :: "string \<Rightarrow> stmt" where
  "assign_x v p = p\<lparr>var_x := Some v\<rparr>"

definition exit_call :: stmt where
  "exit_call = raise_exn SystemExit"

section \<open>The script\<close>

definition usage_message :: "string \<Rightarrow> string" where
  "usage_message prog = ''Usage: '' @ prog @ '' shape_name value''"

definition area_message :: "string \<Rightarrow> string" where
  "area_message digits = ''Area = '' @ digits"

definition unknown_message :: string where
  "unknown_message = ''I do not know that shape''"

definition usage_stmt :: stmt where
  "usage_stmt p =
     (if length (argv p) = 1
      then seq_stmt (eval_then (sys_argv 0) (\<lambda>a0. print_line (usage_message a0)))
             exit_call p
      else p)"

definition square_block :: "'f float_ops \<Rightarrow> stmt" where
  "square_block ops =
     seq_stmt (eval_then (sys_argv 2) assign_x)
       (eval_then (\<lambda>p. bind_result (read_x p)
                     (\<lambda>x. bind_result (fl_parse ops x) (square ops)))
          (\<lambda>a. print_line (area_message (fl_fmt2 ops a))))"

definition square_stmt :: "'f float_ops \<Rightarrow> stmt" where
  "square_stmt ops =
     eval_then (sys_argv 1)
       (\<lambda>a1. if a1 = ''square'' then square_block ops else skip_stmt)"

definition circle_block :: "'f float_ops \<Rightarrow> stmt" where
  "circle_block ops =
     seq_stmt (eval_then (sys_argv 2) assign_x)
       (eval_then (\<lambda>p. bind_result (read_x p)
                     (\<lambda>x. bind_result (fl_parse ops x) (circle ops)))
          (\<lambda>a. print_line (area_message (fl_fmt2 ops a))))"

definition unknown_cond :: "bool expr" where
  "unknown_cond p =
     bind_result (sys_argv 1 p) (\<lambda>a.
     bind_result (sys_argv 1 p) (\<lambda>b.
       Inr (a \<noteq> ''square'' \<and> b \<noteq> ''circle'')))"

definition circle_stmt :: "'f float_ops \<Rightarrow> stmt" where
  "circle_stmt ops =
     eval_then (sys_argv 1)
       (\<lambda>a1. if a1 = ''circle'' then circle_block ops
              else eval_then unknown_cond
                     (\<lambda>c. if c then print_line unknown_message else skip_stmt))"

definition script :: "'f float_ops \<Rightarrow> stmt" where
  "script ops = seq_stmt usage_stmt (seq_stmt (square_stmt ops) (circle_stmt ops))"

definition main :: "'f float_ops \<Rightarrow> string list \<Rightarrow> proc" where
  "main ops av = script ops (init_proc av)"

definition exit_status :: "proc \<Rightarrow> nat" where
  "exit_status p =
     (case raised p of None \<Rightarrow> 0 | Some SystemExit \<Rightarrow> 0 | Some _ \<Rightarrow> 1)"

lemmas stmt_defs =
  print_line_def raise_exn_def skip_stmt_def seq_stmt_def eval_then_def sys_argv_def
  read_x_def assign_x_def exit_call_def

lemmas script_defs =
  usage_stmt_def square_block_def square_stmt_def circle_block_def unknown_cond_def
  circle_stmt_def script_def main_def init_proc_def


section \<open>The dispatch the script is meant to implement\<close>

text \<open>
  What an invocation shows to its caller: the text on standard output and the
  exception that ended the run.  \<open>spec_main\<close> is the single three-way match on
  the shape name that the specification describes: usage, square, circle, or
  the unknown-shape message, exactly one of them per invocation.
\<close>

definition observable :: "proc \<Rightarrow> string \<times> exn option" where
  "observable p = (stdout p, raised p)"

definition spec_area ::
  "'f float_ops \<Rightarrow> ('f \<Rightarrow> 'f result) \<Rightarrow> string list \<Rightarrow> string \<times> exn option" where
  "spec_area ops f rest =
     (case rest of
        [] \<Rightarrow> ([], Some IndexError)
      | v # _ \<Rightarrow>
          (case bind_result (fl_parse ops v) f of
             Inl e \<Rightarrow> ([], Some e)
           | Inr a \<Rightarrow> (area_message (fl_fmt2 ops a) @ [newline], None)))"

definition spec_main :: "'f float_ops \<Rightarrow> string list \<Rightarrow> string \<times> exn option" where
  "spec_main ops av =
     (case av of
        [] \<Rightarrow> ([], Some IndexError)
      | [prog] \<Rightarrow> (usage_message prog @ [newline], Some SystemExit)
      | prog # shape # rest \<Rightarrow>
          if shape = ''square'' then spec_area ops (square ops) rest
          else if shape = ''circle'' then spec_area ops (circle ops) rest
          else (unknown_message @ [newline], None))"

section \<open>The script on every shape of argument vector\<close>

lemma main_Nil_eq: "main ops [] = (init_proc [])\<lparr>raised := Some IndexError\<rparr>"
  by (simp add: script_defs stmt_defs)

lemma main_usage_eq:
  "main ops [prog] =
     (init_proc [prog])\<lparr>stdout := usage_message prog @ [newline], raised := Some SystemExit\<rparr>"
  by (simp add: script_defs stmt_defs)

lemma main_unknown_eq:
  "s \<noteq> ''square'' \<Longrightarrow> s \<noteq> ''circle'' \<Longrightarrow>
   main ops (prog # s # rest) =
     (init_proc (prog # s # rest))\<lparr>stdout := unknown_message @ [newline]\<rparr>"
  by (simp add: script_defs stmt_defs)

lemma main_square_no_value_eq:
  "main ops [prog, ''square''] = (init_proc [prog, ''square''])\<lparr>raised := Some IndexError\<rparr>"
  by (simp add: script_defs stmt_defs)

lemma main_circle_no_value_eq:
  "main ops [prog, ''circle''] = (init_proc [prog, ''circle''])\<lparr>raised := Some IndexError\<rparr>"
  by (simp add: script_defs stmt_defs)

lemma main_square_eq:
  "main ops (prog # ''square'' # v # rest) =
     (case bind_result (fl_parse ops v) (square ops) of
        Inl e \<Rightarrow> (init_proc (prog # ''square'' # v # rest))\<lparr>var_x := Some v, raised := Some e\<rparr>
      | Inr a \<Rightarrow> (init_proc (prog # ''square'' # v # rest))
                  \<lparr>stdout := area_message (fl_fmt2 ops a) @ [newline], var_x := Some v\<rparr>)"
  by (simp add: script_defs stmt_defs split: sum.split)

lemma main_circle_eq:
  "main ops (prog # ''circle'' # v # rest) =
     (case bind_result (fl_parse ops v) (circle ops) of
        Inl e \<Rightarrow> (init_proc (prog # ''circle'' # v # rest))\<lparr>var_x := Some v, raised := Some e\<rparr>
      | Inr a \<Rightarrow> (init_proc (prog # ''circle'' # v # rest))
                  \<lparr>stdout := area_message (fl_fmt2 ops a) @ [newline], var_x := Some v\<rparr>)"
  by (simp add: script_defs stmt_defs split: sum.split)

lemmas main_eqs =
  main_Nil_eq main_usage_eq main_unknown_eq main_square_no_value_eq main_circle_no_value_eq
  main_square_eq main_circle_eq

text \<open>
  Every argument vector has one of seven shapes; each is one equation of
  \<open>main_eqs\<close>.
\<close>

lemma argv_cases [case_names no_argv usage unknown square_no_value circle_no_value square circle]:
  obtains "av = []"
  | prog where "av = [prog]"
  | prog s rest where "av = prog # s # rest" "s \<noteq> ''square''" "s \<noteq> ''circle''"
  | prog where "av = [prog, ''square'']"
  | prog where "av = [prog, ''circle'']"
  | prog v rest where "av = prog # ''square'' # v # rest"
  | prog v rest where "av = prog # ''circle'' # v # rest"
proof (cases av)
  case Nil
  then show ?thesis using that(1) by simp
next
  case (Cons prog av')
  note av = this
  show ?thesis
  proof (cases av')
    case Nil
    with av show ?thesis using that(2) by simp
  next
    case (Cons s rest)
    with av show ?thesis
      using that(3)[of prog s rest] that(4)[of prog] that(5)[of prog]
        that(6)[of prog _ "tl rest"] that(7)[of prog _ "tl rest"]
      by (cases rest) auto
  qed
qed

lemmas main_case_simps = main_eqs init_proc_def

lemma observable_main: "observable (main ops av) = spec_main ops av"
  by (cases av rule: argv_cases)
    (auto simp: main_case_simps observable_def spec_main_def spec_area_def split: sum.split)

section \<open>Properties of the script\<close>

text \<open>
  C1: For every argument vector, what the script writes to standard output and
  the exception it ends with are those of the three-way dispatch \<open>spec_main\<close>:
  the two independent \<^verbatim>\<open>if\<close> statements and the \<^verbatim>\<open>elif\<close> of lines 22-31
  behave as one exclusive match on the shape name.
\<close>

theorem script_refines_dispatch:
  "stdout (main ops av) = fst (spec_main ops av) \<and> raised (main ops av) = snd (spec_main ops av)"
  using observable_main [of ops av] by (simp add: observable_def prod_eq_iff)

text \<open>
  C5: Invoked with the program name only, the script prints the usage line
  with that name, ends by \<open>SystemExit\<close> with exit status 0, and binds no
  variable.
\<close>

theorem usage_when_no_arguments:
  "stdout (main ops [prog]) = ''Usage: '' @ prog @ '' shape_name value'' @ [newline] \<and>
   raised (main ops [prog]) = Some SystemExit \<and>
   exit_status (main ops [prog]) = 0 \<and>
   var_x (main ops [prog]) = None"
  by (simp add: main_case_simps usage_message_def exit_status_def)

text \<open>
  C4: A shape name other than \<open>square\<close> and \<open>circle\<close> prints the unknown-shape
  message and nothing else, whether or not a value follows; the run ends
  normally and \<^verbatim>\<open>x\<close> stays unbound.
\<close>

theorem unknown_shape_message:
  assumes "s \<noteq> ''square''" and "s \<noteq> ''circle''"
  shows "observable (main ops (prog # s # rest)) = (''I do not know that shape'' @ [newline], None) \<and>
         exit_status (main ops (prog # s # rest)) = 0 \<and>
         var_x (main ops (prog # s # rest)) = None"
  using assms by (simp add: main_case_simps observable_def unknown_message_def exit_status_def)

text \<open>
  C2: With shape \<open>square\<close> and a value that \<^verbatim>\<open>float\<close> accepts and whose square
  does not raise, the script prints exactly \<^verbatim>\<open>Area = \<close> followed by the
  two-decimal text of \<open>square (float x)\<close>, and ends normally; further
  arguments do not matter.
\<close>

theorem square_prints_area:
  assumes "fl_parse ops v = Inr f" and "square ops f = Inr a"
  shows "observable (main ops (prog # ''square'' # v # rest)) =
           (''Area = '' @ fl_fmt2 ops a @ [newline], None) \<and>
         exit_status (main ops (prog # ''square'' # v # rest)) = 0"
  using assms by (simp add: main_case_simps observable_def area_message_def exit_status_def)

text \<open>
  C3: With shape \<open>circle\<close> and a value that \<^verbatim>\<open>float\<close> accepts and whose square
  does not raise, the script prints exactly \<^verbatim>\<open>Area = \<close> followed by the
  two-decimal text of \<open>circle (float x)\<close>, and ends normally.  The square
  block and the unknown-shape branch stay silent.
\<close>

theorem circle_prints_area:
  assumes "fl_parse ops v = Inr f" and "circle ops f = Inr a"
  shows "observable (main ops (prog # ''circle'' # v # rest)) =
           (''Area = '' @ fl_fmt2 ops a @ [newline], None) \<and>
         exit_status (main ops (prog # ''circle'' # v # rest)) = 0"
  using assms by (simp add: main_case_simps observable_def area_message_def exit_status_def)

text \<open>
  C7: A recognised shape without a value ends in an uncaught \<open>IndexError\<close>
  from \<^verbatim>\<open>sys.argv[2]\<close>: nothing is printed and the exit status is 1.
\<close>

theorem missing_value_raises_IndexError:
  assumes "s = ''square'' \<or> s = ''circle''"
  shows "observable (main ops [prog, s]) = ([], Some IndexError) \<and>
         exit_status (main ops [prog, s]) = 1"
  using assms by (auto simp: main_case_simps observable_def exit_status_def)

text \<open>
  C8: When \<^verbatim>\<open>float(x)\<close> raises for the value of a recognised shape, that
  exception ends the run and nothing is printed; \<^verbatim>\<open>x\<close> is already bound to
  the argument.
\<close>

theorem conversion_error_propagates:
  assumes "s = ''square'' \<or> s = ''circle''" and "fl_parse ops v = Inl e"
  shows "observable (main ops (prog # s # v # rest)) = ([], Some e) \<and>
         var_x (main ops (prog # s # v # rest)) = Some v"
  using assms by (auto simp: main_case_simps observable_def)

text \<open>
  C9: When \<^verbatim>\<open>x**2\<close> raises inside \<^verbatim>\<open>square\<close> or \<^verbatim>\<open>circle\<close>, that exception
  ends the run and nothing is printed.
\<close>

theorem power_error_propagates:
  assumes "s = ''square'' \<or> s = ''circle''"
    and "fl_parse ops v = Inr f" and "fl_pow2 ops f = Inl e"
  shows "observable (main ops (prog # s # v # rest)) = ([], Some e)"
  using assms by (auto simp: main_case_simps observable_def square_def circle_Inl)

text \<open>
  C10: A run that fails (exit status other than 0) has printed nothing: in
  particular no \<^verbatim>\<open>Area =\<close> line precedes an uncaught exception.
\<close>

theorem failure_prints_nothing:
  assumes "exit_status (main ops av) \<noteq> 0"
  shows "stdout (main ops av) = []"
  using assms
  by (cases av rule: argv_cases)
    (auto simp: main_case_simps exit_status_def split: sum.splits)

text \<open>
  C6: Every run prints at most one message: standard output is empty, or the
  usage line, or the unknown-shape line, or one \<^verbatim>\<open>Area =\<close> line; no two of the
  script's \<^verbatim>\<open>print\<close> calls happen in the same run.
\<close>

theorem at_most_one_message:
  "stdout (main ops av) = [] \<or>
   stdout (main ops av) = usage_message (hd av) @ [newline] \<or>
   stdout (main ops av) = unknown_message @ [newline] \<or>
   (\<exists>a. stdout (main ops av) = area_message (fl_fmt2 ops a) @ [newline])"
  by (cases av rule: argv_cases)
    (auto simp: main_case_simps split: sum.splits)

text \<open>
  C11: Arguments after the value are ignored: a run with extra arguments
  prints and raises exactly what the run with the first three does.
\<close>

theorem extra_arguments_ignored:
  "observable (main ops (prog # s # v # rest)) = observable (main ops [prog, s, v])"
  by (simp add: observable_main spec_main_def spec_area_def)

text \<open>
  C12: The global \<^verbatim>\<open>x\<close> is bound at the end of a run exactly when the shape is
  recognised and a value is present, and then it holds the value argument as
  a string; the argument vector itself is never changed.
\<close>

theorem x_bound_iff_shape_and_value:
  "var_x (main ops av) =
     (if 3 \<le> length av \<and> (av ! 1 = ''square'' \<or> av ! 1 = ''circle'') then Some (av ! 2)
      else None) \<and>
   argv (main ops av) = av"
  by (cases av rule: argv_cases)
    (auto simp: main_case_simps split: sum.splits)

end
