(* ===== verification/Rounding.thy ===== *)
theory Rounding
  imports Prelude "HOL-Library.Log_Nat"
begin

text \<open>
  The integer arithmetic behind both roundings of the program: the rounding of
  an exact product or decimal to the nearest binary64 value (\<^verbatim>\<open>float(x)\<close>,
  the literal \<^verbatim>\<open>3.14159\<close>, \<^verbatim>\<open>pi * r**2\<close>) and the rounding of a binary64 value
  to two decimals (\<^verbatim>\<open>'%.2f'\<close>).  Both round a quotient of naturals to the
  nearest integer, ties to even; the binary one first needs the position of
  the leading bit.  The definitions follow IEEE 754 and the usual integer
  algorithms for it; no line of the script contains them.

  \<^item> \<open>bit_length n\<close> is the number of binary digits of \<open>n\<close>, by the loop that
    halves \<open>n\<close> until it is zero; it agrees with \<open>bitlen\<close> of
    \<open>HOL-Library.Log_Nat\<close>.
  \<^item> \<open>rne_div n d\<close> is \<open>n / d\<close> rounded to the nearest integer, ties to even.
  \<^item> \<open>ilog2 n d\<close> is \<open>\<lfloor>log\<^sub>2 (n / d)\<rfloor>\<close>, computed from the two bit lengths and
    one comparison.

  The lemmas give the bounds and the nearest-integer property of \<open>rne_div\<close>,
  the binade bounds and uniqueness of \<open>ilog2\<close>, the quotients that round up
  past an odd integer, and the composition of three relative errors.
\<close>

section \<open>Definitions\<close>

fun bit_length :: "nat \<Rightarrow> nat" where
  "bit_length n = (if n = 0 then 0 else Suc (bit_length (n div 2)))"

definition rne_div :: "nat \<Rightarrow> nat \<Rightarrow> nat" where
  "rne_div n d =
     (let q = n div d; r = n mod d
      in if 2 * r < d then q
         else if d < 2 * r then q + 1
         else if even q then q else q + 1)"

definition ilog2 :: "nat \<Rightarrow> nat \<Rightarrow> int" where
  "ilog2 n d =
     (let k = int (bit_length n) - int (bit_length d)
      in if d * 2 ^ nat k \<le> n * 2 ^ nat (- k) then k else k - 1)"

section \<open>Bit length\<close>

lemmas [py_eval] = rne_div_def ilog2_def Let_def

declare bit_length.simps [simp del]

lemma bit_length_0 [simp]: "bit_length 0 = 0"
  by (subst bit_length.simps) simp

lemma bit_length_pos: "0 < n \<Longrightarrow> bit_length n = Suc (bit_length (n div 2))"
  by (subst bit_length.simps) simp

lemma bit_length_1 [simp]: "bit_length (Suc 0) = Suc 0"
  by (simp add: bit_length_pos)

text \<open>
  On a binary numeral the halving loop strips one bit per step, so the bit
  length is read off the numeral's structure.
\<close>

lemma bit_length_numeral [py_eval]:
  "bit_length (numeral (Num.Bit0 k)) = Suc (bit_length (numeral k))"
  "bit_length (numeral (Num.Bit1 k)) = Suc (bit_length (numeral k))"
  "bit_length (numeral Num.One) = Suc 0"
  "bit_length 1 = Suc 0"
  by (simp_all add: bit_length_pos)

lemma bit_length_eq_bitlen: "int (bit_length n) = bitlen (int n)"
proof (induction n rule: bit_length.induct)
  case (1 n)
  show ?case
  proof (cases "n = 0")
    case True
    then show ?thesis by simp
  next
    case False
    have "bitlen (int n) = bitlen (int n div 2) + 1"
      using False by (subst compute_bitlen) simp
    also have "int n div 2 = int (n div 2)" by simp
    finally show ?thesis using False 1 by (simp add: bit_length_pos)
  qed
qed

lemma bit_length_bounds:
  assumes "0 < n"
  shows "2 ^ (bit_length n - 1) \<le> n" and "n < 2 ^ bit_length n"
proof -
  from assms have pos: "0 < int n" by simp
  from bitlen_bounds [OF pos]
  have a: "(2::int) ^ nat (bitlen (int n) - 1) \<le> int n" and b: "int n < 2 ^ nat (bitlen (int n))"
    by simp_all
  have n1: "nat (bitlen (int n) - 1) = bit_length n - 1"
    by (simp flip: bit_length_eq_bitlen)
  have n2: "nat (bitlen (int n)) = bit_length n"
    by (simp flip: bit_length_eq_bitlen)
  from a show "2 ^ (bit_length n - 1) \<le> n"
    unfolding n1 by (metis of_nat_le_iff of_nat_numeral of_nat_power)
  from b show "n < 2 ^ bit_length n"
    unfolding n2 by (metis of_nat_less_iff of_nat_numeral of_nat_power)
qed

lemma bit_length_le_iff: "bit_length n \<le> k \<longleftrightarrow> n < 2 ^ k"
  using less_power_nat_iff_bitlen [of n k] by (simp flip: bit_length_eq_bitlen)

lemma bit_length_eqI: "2 ^ k \<le> n \<Longrightarrow> n < 2 ^ Suc k \<Longrightarrow> bit_length n = Suc k"
  by (metis bit_length_le_iff le_antisym not_less not_less_eq_eq)

lemma bit_length_power2 [simp]: "bit_length (2 ^ k) = Suc k"
  by (rule bit_length_eqI) simp_all

lemma bit_length_gt_0_iff [simp]: "0 < bit_length n \<longleftrightarrow> 0 < n"
  by (cases "n = 0") (simp_all add: bit_length_pos)

lemma bit_length_bounds_real:
  assumes "0 < n"
  shows "2 ^ (bit_length n - 1) \<le> real n" and "real n < 2 ^ bit_length n"
proof -
  from bit_length_bounds(1) [OF assms] have "real (2 ^ (bit_length n - 1)) \<le> real n"
    by (simp only: of_nat_le_iff)
  then show "2 ^ (bit_length n - 1) \<le> real n" by simp
  from bit_length_bounds(2) [OF assms] have "real n < real (2 ^ bit_length n)"
    by (simp only: of_nat_less_iff)
  then show "real n < 2 ^ bit_length n" by simp
qed

section \<open>Round-half-even division\<close>

lemma rne_div_split:
  assumes "r < d"
  shows "rne_div (q * d + r) d =
     (if 2 * r < d then q else if d < 2 * r then q + 1 else if even q then q else q + 1)"
  using assms by (simp add: rne_div_def)

lemma rne_div_cases [consumes 1, case_names down up tie_even tie_odd]:
  assumes "0 < d"
  obtains q r where "n = q * d + r" "2 * r < d" "rne_div n d = q"
  | q r where "n = q * d + r" "r < d" "d < 2 * r" "rne_div n d = q + 1"
  | q r where "n = q * d + r" "2 * r = d" "even q" "rne_div n d = q"
  | q r where "n = q * d + r" "2 * r = d" "odd q" "rne_div n d = q + 1"
proof -
  define q r where "q = n div d" and "r = n mod d"
  have n: "n = q * d + r" and r: "r < d"
    using assms by (simp_all add: q_def r_def)
  have eq: "rne_div n d =
     (if 2 * r < d then q else if d < 2 * r then q + 1 else if even q then q else q + 1)"
    unfolding n by (rule rne_div_split [OF r])
  consider "2 * r < d" | "d < 2 * r" | "2 * r = d" "even q" | "2 * r = d" "odd q"
    by linarith
  then show thesis
  proof cases
    case 1
    with eq n show ?thesis by (intro that(1) [of q r]) simp_all
  next
    case 2
    with eq n r show ?thesis by (intro that(2) [of q r]) simp_all
  next
    case 3
    with eq n show ?thesis by (intro that(3) [of q r]) simp_all
  next
    case 4
    with eq n show ?thesis by (intro that(4) [of q r]) simp_all
  qed
qed

lemma rne_div_upper:
  assumes "0 < d"
  shows "2 * (rne_div n d * d) \<le> 2 * n + d"
  using assms by (cases rule: rne_div_cases [where n = n]) (simp_all add: algebra_simps)

lemma rne_div_lower:
  assumes "0 < d"
  shows "2 * n \<le> 2 * (rne_div n d * d) + d"
  using assms by (cases rule: rne_div_cases [where n = n]) (simp_all add: algebra_simps)

lemma rne_div_exact [simp]: "0 < d \<Longrightarrow> rne_div (q * d) d = q"
  by (simp add: rne_div_def)

lemma rne_div_tie_even: "0 < d \<Longrightarrow> 2 * (n mod d) = d \<Longrightarrow> even (rne_div n d)"
  by (auto simp: rne_div_def Let_def)

lemma rne_div_ge_div: "n div d \<le> rne_div n d"
  by (simp add: rne_div_def Let_def)

lemma rne_div_le_Suc_div: "rne_div n d \<le> Suc (n div d)"
  by (simp add: rne_div_def Let_def)

lemma rne_div_mono:
  assumes "0 < d" "n \<le> n'"
  shows "rne_div n d \<le> rne_div n' d"
proof (cases "n div d = n' div d")
  case True
  from assms have "n mod d \<le> n' mod d"
    by (metis True add_le_cancel_left div_mult_mod_eq mult.commute)
  with True show ?thesis by (auto simp: rne_div_def Let_def)
next
  case False
  with assms have "n div d < n' div d"
    by (simp add: div_le_mono le_neq_implies_less)
  then have "Suc (n div d) \<le> n' div d" by simp
  with rne_div_le_Suc_div [of n d] rne_div_ge_div [of n' d] show ?thesis by linarith
qed


lemma rne_div_le_bound:
  assumes "0 < d" "n \<le> K * d"
  shows "rne_div n d \<le> K"
  using rne_div_mono [OF assms] assms(1) by simp

lemma rne_div_ge_bound:
  assumes "0 < d" "K * d \<le> n"
  shows "K \<le> rne_div n d"
  using rne_div_mono [OF assms] assms(1) by simp

lemma rne_div_error_scaled:
  assumes "0 < d"
  shows "\<bar>real (rne_div n d) * real d - real n\<bar> \<le> real d / 2"
proof -
  have "real (2 * (rne_div n d * d)) \<le> real (2 * n + d)"
    using rne_div_upper [OF assms, of n] by (simp only: of_nat_le_iff)
  then have upper: "2 * (real (rne_div n d) * real d) \<le> 2 * real n + real d"
    by simp
  have "real (2 * n) \<le> real (2 * (rne_div n d * d) + d)"
    using rne_div_lower [OF assms, of n] by (simp only: of_nat_le_iff)
  then have lower: "2 * real n \<le> 2 * (real (rne_div n d) * real d) + real d"
    by simp
  from upper lower show ?thesis by linarith
qed

lemma rne_div_error:
  assumes "0 < d"
  shows "\<bar>real (rne_div n d) - real n / real d\<bar> \<le> 1 / 2"
proof -
  have "real (rne_div n d) - real n / real d = (real (rne_div n d) * real d - real n) / real d"
    using assms by (simp add: field_simps)
  then have "\<bar>real (rne_div n d) - real n / real d\<bar> =
      \<bar>real (rne_div n d) * real d - real n\<bar> / real d"
    by (simp add: abs_divide)
  also have "\<dots> \<le> (real d / 2) / real d"
    using rne_div_error_scaled [OF assms, of n] assms by (simp add: divide_right_mono)
  also have "\<dots> = 1 / 2"
    using assms by simp
  finally show ?thesis .
qed

lemma rne_div_nearest:
  assumes "0 < d"
  shows "\<bar>real (rne_div n d) - real n / real d\<bar> \<le> \<bar>real k - real n / real d\<bar>"
proof -
  consider "k = rne_div n d" | "Suc k \<le> rne_div n d" | "Suc (rne_div n d) \<le> k"
    by linarith
  then show ?thesis
  proof cases
    case 1
    then show ?thesis by simp
  next
    case 2
    then have "real (Suc k) \<le> real (rne_div n d)" by (simp only: of_nat_le_iff)
    then have "real k + 1 \<le> real (rne_div n d)" by simp
    with rne_div_error [OF assms, of n] show ?thesis by linarith
  next
    case 3
    then have "real (Suc (rne_div n d)) \<le> real k" by (simp only: of_nat_le_iff)
    then have "real (rne_div n d) + 1 \<le> real k" by simp
    with rne_div_error [OF assms, of n] show ?thesis by linarith
  qed
qed

section \<open>Scaling by powers of two and the binary logarithm\<close>

lemma pow2_split: "(2::real) powi e = 2 ^ nat e / 2 ^ nat (- e)"
  by (cases "0 \<le> e") (simp_all add: power_int_def field_simps)

lemma scaled_quotient:
  "0 < d \<Longrightarrow> real (n * 2 ^ nat (- e)) / real (d * 2 ^ nat e) = real n / real d * 2 powi (- e)"
  by (cases "0 \<le> e") (simp_all add: power_int_def field_simps)

lemma scaled_le_iff:
  "0 < d \<Longrightarrow> d * 2 ^ nat e \<le> n * 2 ^ nat (- e) \<longleftrightarrow> 2 powi e \<le> real n / real d"
proof -
  assume d: "0 < d"
  have "d * 2 ^ nat e \<le> n * 2 ^ nat (- e) \<longleftrightarrow> real (d * 2 ^ nat e) \<le> real (n * 2 ^ nat (- e))"
    by (simp only: of_nat_le_iff)
  also have "\<dots> \<longleftrightarrow> 2 powi e \<le> real n / real d"
    using d by (simp add: pow2_split [of e] field_simps)
  finally show ?thesis .
qed

lemma ilog2_bounds:
  assumes n: "0 < n" and d: "0 < d"
  shows "2 powi (ilog2 n d) \<le> real n / real d" and "real n / real d < 2 powi (ilog2 n d + 1)"
proof -
  define k where "k = int (bit_length n) - int (bit_length d)"
  define q where "q = real n / real d"
  obtain bn bd where bn: "bit_length n = Suc bn" and bd: "bit_length d = Suc bd"
    using n d by (auto simp: bit_length_pos)
  note n_lo = bit_length_bounds_real(1) [OF n] and n_hi = bit_length_bounds_real(2) [OF n]
  note d_lo = bit_length_bounds_real(1) [OF d] and d_hi = bit_length_bounds_real(2) [OF d]
  have dpos: "0 < real d" using d by simp
  have hi: "q < 2 powi (k + 1)"
  proof -
    have "q < 2 ^ bit_length n / 2 ^ (bit_length d - 1)"
      unfolding q_def using n_hi d_lo by (intro frac_less) simp_all
    also have "\<dots> = 2 powi (int (bit_length n) - int (bit_length d - 1))"
      by (simp add: power_int_diff)
    also have "int (bit_length n) - int (bit_length d - 1) = k + 1"
      by (simp add: k_def bd)
    finally show ?thesis .
  qed
  have lo: "2 powi (k - 1) < q"
  proof -
    have "2 powi (k - 1) = 2 ^ (bit_length n - 1) / (2::real) ^ bit_length d"
      by (simp add: k_def power_int_diff bn)
    also have "\<dots> < q"
      unfolding q_def using n_lo d_hi dpos by (intro frac_less2) simp_all
    finally show ?thesis .
  qed
  have cond: "d * 2 ^ nat k \<le> n * 2 ^ nat (- k) \<longleftrightarrow> 2 powi k \<le> q"
    unfolding q_def by (rule scaled_le_iff [OF d])
  show "2 powi (ilog2 n d) \<le> real n / real d"
    using lo cond by (auto simp: ilog2_def Let_def k_def [symmetric] q_def [symmetric])
  show "real n / real d < 2 powi (ilog2 n d + 1)"
    using hi cond by (auto simp: ilog2_def Let_def k_def [symmetric] q_def [symmetric] not_le)
qed

lemma scaled_mult_le_iff:
  assumes d: "0 < d"
  shows "K * (d * 2 ^ nat e) \<le> n * 2 ^ nat (- e) \<longleftrightarrow> real K * 2 powi e \<le> real n / real d"
proof -
  have "K * (d * 2 ^ nat e) \<le> n * 2 ^ nat (- e) \<longleftrightarrow>
      real (K * (d * 2 ^ nat e)) \<le> real (n * 2 ^ nat (- e))"
    by (simp only: of_nat_le_iff)
  also have "\<dots> \<longleftrightarrow> real K * 2 powi e \<le> real n / real d"
    using d by (simp add: pow2_split [of e] field_simps)
  finally show ?thesis .
qed

lemma scaled_less_mult_iff:
  assumes d: "0 < d"
  shows "n * 2 ^ nat (- e) < K * (d * 2 ^ nat e) \<longleftrightarrow> real n / real d < real K * 2 powi e"
  using scaled_mult_le_iff [OF d, of K e n] by (simp add: not_le [symmetric])

section \<open>Uniqueness of the exponent and the rounding threshold\<close>

text \<open>
  Powers of two compare as their exponents do, so the exponent \<open>ilog2\<close> finds is
  the only one whose binade holds the quotient; and the quotients that round
  up past an odd \<open>k\<close> are exactly those from \<open>k + 1/2\<close> on.
\<close>

lemma pow2_less_iff [simp]: "(2::real) powi a < 2 powi b \<longleftrightarrow> a < b"
proof
  assume "(2::real) powi a < 2 powi b"
  then show "a < b"
    using power_int_increasing [of b a "2::real"] by (cases "a < b") simp_all
next
  assume "a < b"
  then show "(2::real) powi a < 2 powi b"
    by (intro power_int_strict_increasing) simp_all
qed

lemma pow2_le_iff [simp]: "(2::real) powi a \<le> 2 powi b \<longleftrightarrow> a \<le> b"
  using pow2_less_iff [of b a] by (simp add: not_less [symmetric] del: pow2_less_iff)

lemma ilog2_ge:
  assumes "0 < n" "0 < d" "2 powi k \<le> real n / real d"
  shows "k \<le> ilog2 n d"
proof -
  from assms(3) ilog2_bounds(2) [OF assms(1,2)] have "(2::real) powi k < 2 powi (ilog2 n d + 1)"
    by (rule le_less_trans)
  then show ?thesis by simp
qed

lemma ilog2_le:
  assumes "0 < n" "0 < d" "real n / real d < 2 powi (k + 1)"
  shows "ilog2 n d \<le> k"
proof -
  from ilog2_bounds(1) [OF assms(1,2)] assms(3) have "(2::real) powi (ilog2 n d) < 2 powi (k + 1)"
    by (rule le_less_trans)
  then show ?thesis by simp
qed

lemma ilog2_unique:
  assumes "0 < n" "0 < d" "2 powi k \<le> real n / real d" "real n / real d < 2 powi (k + 1)"
  shows "ilog2 n d = k"
  using ilog2_ge [OF assms(1,2,3)] ilog2_le [OF assms(1,2,4)] by simp

lemma rne_div_ge_Suc_odd_iff:
  assumes d: "0 < d" and k: "odd k"
  shows "Suc k \<le> rne_div n d \<longleftrightarrow> (2 * k + 1) * d \<le> 2 * n"
proof -
  have lt: "(2 * k + 1) * d \<le> 2 * (q * d + r)" if "k < q" for q r
  proof -
    from that have "Suc k * d \<le> q * d" by (intro mult_le_mono1) simp
    then show ?thesis by (simp add: algebra_simps)
  qed
  have gt: "2 * (q * d + r) < (2 * k + 1) * d" if "q < k" "r < d" for q r
  proof -
    from that have "Suc q * d \<le> k * d" by (intro mult_le_mono1) simp
    with that show ?thesis by (simp add: algebra_simps)
  qed
  from d show ?thesis
  proof (cases rule: rne_div_cases [where n = n])
    case (down q r)
    with lt [of q r] gt [of q r] d show ?thesis
      by (cases k q rule: linorder_cases) (auto simp: algebra_simps)
  next
    case (up q r)
    with lt [of q r] gt [of q r] show ?thesis
      by (cases k q rule: linorder_cases) (auto simp: algebra_simps)
  next
    case (tie_even q r)
    with lt [of q r] gt [of q r] k d show ?thesis
      by (cases k q rule: linorder_cases) (auto simp: algebra_simps)
  next
    case (tie_odd q r)
    with lt [of q r] gt [of q r] k d show ?thesis
      by (cases k q rule: linorder_cases) (auto simp: algebra_simps)
  qed
qed

lemma mult_le_iff_real: "0 < d \<Longrightarrow> T * d \<le> n \<longleftrightarrow> real T \<le> real n / real d"
  by (simp add: pos_le_divide_eq flip: of_nat_mult)

lemma quotient_powi:
  "real (m * 2 ^ nat e) / real (2 ^ nat (- e)) = real m * 2 powi e"
  by (simp add: pow2_split [of e])

section \<open>Composition of relative errors\<close>

text \<open>
  A factor with relative error at most \<open>u\<close>, a factor with relative error at most
  \<open>2 * u\<close> and the rounding of their product with relative error at most \<open>u\<close>
  stay within \<open>5 * u\<close> of the exact product: the error analysis of
  \<^verbatim>\<open>pi * r**2\<close>, where \<open>pi\<close> and the product are correctly rounded and the square
  comes from the C library.
\<close>

lemma rel_error_bounds:
  fixes a b u :: real
  assumes "\<bar>a - b\<bar> \<le> u * b"
  shows "(1 - u) * b \<le> a" "a \<le> (1 + u) * b"
  using assms by (auto simp: abs_le_iff algebra_simps)

lemma cube_bounds:
  fixes u :: real
  assumes "0 \<le> u" "u \<le> 1 / 8"
  shows "(1 + u) * ((1 + u) * (1 + 2 * u)) \<le> 1 + 5 * u"
    and "1 - 5 * u \<le> (1 - u) * ((1 - u) * (1 - 2 * u))"
proof -
  from assms have uu: "u * u \<le> u / 8" "0 \<le> u * u"
    using mult_left_mono [of u "1 / 8" u] by simp_all
  from assms uu(2) have "u * (u * u) \<le> 1 * (u * u)"
    by (intro mult_right_mono) simp_all
  then have uuu: "u * (u * u) \<le> u * u" "0 \<le> u * (u * u)"
    using assms(1) by simp_all
  have "(1 + u) * ((1 + u) * (1 + 2 * u)) = 1 + 4 * u + 5 * (u * u) + 2 * (u * (u * u))"
    by (simp add: algebra_simps)
  with uu uuu show "(1 + u) * ((1 + u) * (1 + 2 * u)) \<le> 1 + 5 * u" by linarith
  have "(1 - u) * ((1 - u) * (1 - 2 * u)) = 1 - 4 * u + 5 * (u * u) - 2 * (u * (u * u))"
    by (simp add: algebra_simps)
  with uu uuu assms show "1 - 5 * u \<le> (1 - u) * ((1 - u) * (1 - 2 * u))" by linarith
qed

lemma rel_error_compose:
  fixes a p r p0 r0 u :: real
  assumes p: "\<bar>p - p0\<bar> \<le> u * p0" and r: "\<bar>r - r0\<bar> \<le> 2 * u * r0"
    and a: "\<bar>a - p * r\<bar> \<le> u * (p * r)"
    and nonneg: "0 \<le> p0" "0 \<le> r0" and u: "0 \<le> u" "u \<le> 1 / 8"
  shows "\<bar>a - p0 * r0\<bar> \<le> 5 * u * (p0 * r0)"
proof -
  note pb = rel_error_bounds [OF p] and rb = rel_error_bounds [OF r] and ab = rel_error_bounds [OF a]
  from u have u1: "0 \<le> 1 - u" "0 \<le> 1 + u" "0 \<le> 1 - 2 * u" by simp_all
  have lo_p: "0 \<le> (1 - u) * p0" and lo_r: "0 \<le> (1 - 2 * u) * r0"
    using u1 nonneg by simp_all
  have pr_hi: "p * r \<le> ((1 + u) * p0) * ((1 + 2 * u) * r0)"
    using pb rb lo_p lo_r by (intro mult_mono) linarith+
  have pr_lo: "((1 - u) * p0) * ((1 - 2 * u) * r0) \<le> p * r"
    using pb rb lo_p lo_r by (intro mult_mono) linarith+
  have "a \<le> (1 + u) * (p * r)" by (rule ab(2))
  also have "\<dots> \<le> (1 + u) * (((1 + u) * p0) * ((1 + 2 * u) * r0))"
    using pr_hi u1 by (intro mult_left_mono)
  also have "\<dots> = (1 + u) * ((1 + u) * (1 + 2 * u)) * (p0 * r0)"
    by (simp add: mult_ac)
  also have "\<dots> \<le> (1 + 5 * u) * (p0 * r0)"
    using cube_bounds(1) [OF u] nonneg by (intro mult_right_mono) simp_all
  finally have hi: "a \<le> (1 + 5 * u) * (p0 * r0)" .
  have "(1 - 5 * u) * (p0 * r0) \<le> (1 - u) * ((1 - u) * (1 - 2 * u)) * (p0 * r0)"
    using cube_bounds(2) [OF u] nonneg by (intro mult_right_mono) simp_all
  also have "\<dots> = (1 - u) * (((1 - u) * p0) * ((1 - 2 * u) * r0))"
    by (simp add: mult_ac)
  also have "\<dots> \<le> (1 - u) * (p * r)"
    using pr_lo u1 by (intro mult_left_mono)
  also have "\<dots> \<le> a" by (rule ab(1))
  finally have lo: "(1 - 5 * u) * (p0 * r0) \<le> a" .
  from hi lo show ?thesis
    by (simp add: abs_le_iff algebra_simps)
qed

section \<open>Properties of the rounding primitives\<close>

text \<open>
  C28: \<open>rne_div\<close> rounds a quotient to a nearest integer and, when the quotient
  lies halfway between two integers, to the even one.
\<close>

theorem rne_div_half_even:
  assumes "0 < d"
  shows "\<bar>real (rne_div n d) - real n / real d\<bar> \<le> 1 / 2 \<and>
         (\<bar>real (rne_div n d) - real n / real d\<bar> = 1 / 2 \<longrightarrow> even (rne_div n d))"
proof -
  have frac: "(real q * real d + real r) / real d = real q + real r / real d" for q r
    using assms by (simp add: field_simps)
  from assms have "\<bar>real (rne_div n d) - real n / real d\<bar> = 1 / 2 \<longrightarrow> even (rne_div n d)"
  proof (cases rule: rne_div_cases [where n = n])
    case (down q r)
    then have "real r / real d < 1 / 2" "0 \<le> real r / real d"
      using assms by (simp_all add: field_simps flip: of_nat_mult)
    moreover from down have "real (rne_div n d) - real n / real d = - (real r / real d)"
      by (simp add: frac)
    ultimately have "\<bar>real (rne_div n d) - real n / real d\<bar> < 1 / 2"
      by linarith
    then show ?thesis by simp
  next
    case (up q r)
    then have "1 / 2 < real r / real d" "real r / real d < 1"
      using assms by (simp_all add: field_simps flip: of_nat_mult)
    moreover from up have "real (rne_div n d) - real n / real d = 1 - real r / real d"
      by (simp add: frac)
    ultimately have "\<bar>real (rne_div n d) - real n / real d\<bar> < 1 / 2"
      by linarith
    then show ?thesis by simp
  qed simp_all
  with rne_div_error [OF assms] show ?thesis by simp
qed

text \<open>
  C29: \<open>ilog2\<close>, computed from bit lengths and one comparison of naturals, is
  the floor of the binary logarithm of the quotient.
\<close>

theorem ilog2_floor_log:
  assumes "0 < n" "0 < d"
  shows "ilog2 n d = \<lfloor>log 2 (real n / real d)\<rfloor>"
proof -
  have pw: "(2::real) powr real_of_int k = 2 powi k" for k
    by (simp add: powr_real_of_int')
  from assms have "0 < real n / real d" by simp
  then have "\<lfloor>log 2 (real n / real d)\<rfloor> = ilog2 n d \<longleftrightarrow>
      2 powi (ilog2 n d) \<le> real n / real d \<and> real n / real d < 2 powi (ilog2 n d + 1)"
    using floor_log_eq_powr_iff [of "real n / real d" 2 "ilog2 n d"] by (simp only: pw)
  with ilog2_bounds [OF assms] show ?thesis by simp
qed

text \<open>
  C30: The halving loop \<open>bit_length\<close> agrees with the logarithm: for positive \<open>n\<close>
  it is \<open>\<lfloor>log\<^sub>2 n\<rfloor> + 1\<close>, and \<open>0\<close> for \<open>0\<close>.
\<close>

theorem bit_length_floor_log:
  "int (bit_length n) = (if 0 < n then \<lfloor>log 2 (real n)\<rfloor> + 1 else 0)"
  by (simp add: bit_length_eq_bitlen bitlen_alt_def)

end
