(* ===== verification/Binary64.thy ===== *)
theory Binary64
  imports Rounding Runtime
begin

text \<open>
  Python's \<^verbatim>\<open>float\<close> as the program uses it: an IEEE 754 binary64 value and
  the two arithmetic operations of \<^verbatim>\<open>square\<close> and \<^verbatim>\<open>circle\<close>.

  \<^item> \<open>pyfloat\<close>: a finite value is a sign, a mantissa \<open>m < 2\<^sup>5\<^sup>3\<close> and an exponent
    \<open>e\<close> with value \<open>m * 2\<^sup>e\<close>; \<open>wf_float\<close> is the range of binary64 with the
    representation made unique (normal numbers have \<open>2\<^sup>5\<^sup>2 \<le> m\<close>, subnormals and
    zero have \<open>e = -1074\<close>).
  \<^item> \<open>round_nd s n d\<close>: the quotient \<open>n / d\<close> with sign \<open>s\<close> rounded to the nearest
    binary64 value, ties to even, overflowing to infinity: the rounding of
    every float operation and of \<^verbatim>\<open>float(x)\<close>.
  \<^item> \<open>float_lit m k\<close>: the literal with digits \<open>m\<close>, \<open>k\<close> of them after the point
    (\<^verbatim>\<open>pi = 3.14159\<close>, line 15).
  \<^item> \<open>float_mul\<close>: \<^verbatim>\<open>a * b\<close> (line 16), IEEE multiplication: never raises.
  \<^item> \<open>float_pow2 pw\<close>: \<^verbatim>\<open>x**2\<close> (lines 9 and 16), following the branches of
    CPython's \<^verbatim>\<open>float_pow\<close> for the exponent 2: NaN and infinities first,
    zero and one returned directly, otherwise the C library's
    \<^verbatim>\<open>pow(fabs(x), 2.0)\<close>, followed by the interpreter's adjustment of \<^verbatim>\<open>errno\<close>,
    after which a range error becomes \<open>OverflowError\<close>.  The C library is the
    parameter \<open>pw\<close>: it returns the value and whether it set \<^verbatim>\<open>errno\<close> to
    \<^verbatim>\<open>ERANGE\<close>.  Nothing about its accuracy is built into the definition; the
    theorems that need it state it as a hypothesis, \<open>libm_exact_at\<close> (correctly
    rounded at this argument) or \<open>libm_faithful_at\<close> (within one unit in the last
    place).  \<open>pow_rn\<close> is a correctly rounded library, used for the examples.
\<close>

section \<open>Values\<close>

datatype pyfloat = Finite bool nat int | Infinity bool | NaN

fun is_nan :: "pyfloat \<Rightarrow> bool" where
  "is_nan NaN = True"
| "is_nan _ = False"

fun is_inf :: "pyfloat \<Rightarrow> bool" where
  "is_inf (Infinity s) = True"
| "is_inf _ = False"

fun is_finite :: "pyfloat \<Rightarrow> bool" where
  "is_finite (Finite s m e) = True"
| "is_finite _ = False"

fun sign_bit :: "pyfloat \<Rightarrow> bool" where
  "sign_bit (Finite s m e) = s"
| "sign_bit (Infinity s) = s"
| "sign_bit NaN = False"

fun wf_float :: "pyfloat \<Rightarrow> bool" where
  "wf_float (Finite s m e) \<longleftrightarrow>
     m < 2 ^ 53 \<and> - 1074 \<le> e \<and> e \<le> 971 \<and> (2 ^ 52 \<le> m \<or> e = - 1074)"
| "wf_float _ \<longleftrightarrow> True"

fun abs_val :: "pyfloat \<Rightarrow> real" where
  "abs_val (Finite s m e) = real m * 2 powi e"
| "abs_val _ = 0"

definition valof :: "pyfloat \<Rightarrow> real" where
  "valof x = (if sign_bit x then - abs_val x else abs_val x)"

section \<open>Rounding to nearest, ties to even\<close>

text \<open>
  The exponent of the last mantissa bit of the result, and the mantissa at that
  exponent: \<open>n / d\<close> in units of \<open>2 ^ round_exp n d\<close>, rounded half to even.
\<close>

definition round_exp :: "nat \<Rightarrow> nat \<Rightarrow> int" where
  "round_exp n d = max (ilog2 n d - 52) (- 1074)"

definition round_mant :: "nat \<Rightarrow> nat \<Rightarrow> nat" where
  "round_mant n d = rne_div (n * 2 ^ nat (- round_exp n d)) (d * 2 ^ nat (round_exp n d))"

definition round_nd :: "bool \<Rightarrow> nat \<Rightarrow> nat \<Rightarrow> pyfloat" where
  "round_nd s n d =
     (if n = 0 then Finite s 0 (- 1074)
      else
        let e = round_exp n d;
            m = round_mant n d;
            e' = (if m = 2 ^ 53 then e + 1 else e);
            m' = (if m = 2 ^ 53 then 2 ^ 52 else m)
        in if 971 < e' then Infinity s else Finite s m' e')"

section \<open>Literals, multiplication and squaring\<close>

definition float_lit :: "nat \<Rightarrow> nat \<Rightarrow> pyfloat" where
  "float_lit m k = round_nd False m (10 ^ k)"

fun float_mul :: "pyfloat \<Rightarrow> pyfloat \<Rightarrow> pyfloat" where
  "float_mul NaN b = NaN"
| "float_mul a NaN = NaN"
| "float_mul (Infinity s) (Infinity t) = Infinity (s \<noteq> t)"
| "float_mul (Infinity s) (Finite t m e) = (if m = 0 then NaN else Infinity (s \<noteq> t))"
| "float_mul (Finite s m e) (Infinity t) = (if m = 0 then NaN else Infinity (s \<noteq> t))"
| "float_mul (Finite s m e) (Finite t m' e') =
     round_nd (s \<noteq> t) (m * m' * 2 ^ nat (e + e')) (2 ^ nat (- (e + e')))"

text \<open>
  \<^verbatim>\<open>x**2\<close>.  The tests of \<^verbatim>\<open>float_pow\<close> on its first argument are \<open>is_nan\<close>,
  \<open>is_inf\<close>, \<open>is_zero\<close> and, after the sign is dropped, \<open>is_one\<close>.  A value of type
  \<open>libm_pow\<close> is the C library's \<^verbatim>\<open>pow(x, 2.0)\<close>: the result and whether \<^verbatim>\<open>errno\<close>
  is \<^verbatim>\<open>ERANGE\<close> after the call.  \<open>adjust_erange\<close> is the interpreter's correction
  of \<^verbatim>\<open>errno\<close>: an infinite result is a range error whatever the library
  reported, a reported range error with a zero result (underflow) is dropped.
\<close>

fun is_zero :: "pyfloat \<Rightarrow> bool" where
  "is_zero (Finite s m e) \<longleftrightarrow> m = 0"
| "is_zero _ \<longleftrightarrow> False"

fun is_one :: "pyfloat \<Rightarrow> bool" where
  "is_one (Finite s m e) \<longleftrightarrow> m = 2 ^ 52 \<and> e = - 52"
| "is_one _ \<longleftrightarrow> False"

fun float_abs :: "pyfloat \<Rightarrow> pyfloat" where
  "float_abs (Finite s m e) = Finite False m e"
| "float_abs (Infinity s) = Infinity False"
| "float_abs NaN = NaN"

type_synonym libm_pow = "pyfloat \<Rightarrow> pyfloat \<times> bool"

definition adjust_erange :: "pyfloat \<times> bool \<Rightarrow> bool" where
  "adjust_erange r = (if snd r then \<not> is_zero (fst r) else is_inf (fst r))"

definition float_pow2 :: "libm_pow \<Rightarrow> pyfloat \<Rightarrow> pyfloat result" where
  "float_pow2 pw x =
     (if is_nan x then Inr x
      else if is_inf x then Inr (Infinity False)
      else if is_zero x then Inr (Finite False 0 (- 1074))
      else if is_one (float_abs x) then Inr (Finite False (2 ^ 52) (- 52))
      else
        let r = pw (float_abs x)
        in if adjust_erange r then Inl OverflowError else Inr (fst r))"

text \<open>
  What the theorems assume of the C library at an argument \<open>x\<close> of \<^verbatim>\<open>x**2\<close>.

  \<^item> \<open>libm_exact_at pw x\<close>: the result is the correctly rounded square, which is
    the IEEE product \<open>x * x\<close>, and \<^verbatim>\<open>errno\<close> is set at most on overflow and on
    underflow to zero.
  \<^item> \<open>libm_faithful_at pw x\<close>: the result is finite, not negative, well formed
    and within a relative error of \<open>2\<^sup>-\<^sup>5\<^sup>2\<close> (one unit in the last place) of the
    exact square, and \<^verbatim>\<open>errno\<close> is clear.
  \<^item> \<open>pow_rn\<close>: a library that is correctly rounded everywhere.
\<close>

definition libm_exact_at :: "libm_pow \<Rightarrow> pyfloat \<Rightarrow> bool" where
  "libm_exact_at pw x \<longleftrightarrow>
     fst (pw (float_abs x)) = float_mul x x \<and>
     (snd (pw (float_abs x)) \<longrightarrow> is_inf (float_mul x x) \<or> is_zero (float_mul x x))"

definition libm_faithful_at :: "libm_pow \<Rightarrow> pyfloat \<Rightarrow> bool" where
  "libm_faithful_at pw x \<longleftrightarrow>
     \<not> snd (pw (float_abs x)) \<and> is_finite (fst (pw (float_abs x))) \<and>
     \<not> sign_bit (fst (pw (float_abs x))) \<and> wf_float (fst (pw (float_abs x))) \<and>
     \<bar>abs_val (fst (pw (float_abs x))) - (abs_val x)\<^sup>2\<bar> \<le> (abs_val x)\<^sup>2 / 2 ^ 52"

definition pow_rn :: libm_pow where
  "pow_rn x = (float_mul x x, is_inf (float_mul x x) \<or> is_zero (float_mul x x))"

text \<open>
  The least quotient that rounds to infinity: the largest finite value
  \<open>(2\<^sup>5\<^sup>3 - 1) * 2\<^sup>9\<^sup>7\<^sup>1\<close> plus half a unit of its last place.
\<close>

definition overflow_threshold :: nat where
  "overflow_threshold = (2 ^ 54 - 1) * 2 ^ 970"

section \<open>Well-formedness of rounding\<close>

lemmas [py_eval] = round_nd_def round_exp_def round_mant_def float_lit_def

lemma round_exp_ge: "ilog2 n d - 52 \<le> round_exp n d" "- 1074 \<le> round_exp n d"
  by (simp_all add: round_exp_def)

lemma pow2_53_powi: "real (2 ^ 53) * 2 powi e = 2 powi (e + 53)"
  by (simp add: power_int_add)

lemma pow2_52_powi: "real (2 ^ 52) * 2 powi e = 2 powi (e + 52)"
  by (simp add: power_int_add)

lemma scaled_less_2_53:
  assumes n: "0 < n" and d: "0 < d"
  shows "n * 2 ^ nat (- round_exp n d) < 2 ^ 53 * (d * 2 ^ nat (round_exp n d))"
proof -
  have "real n / real d < 2 powi (ilog2 n d + 1)"
    by (rule ilog2_bounds(2) [OF n d])
  also have "\<dots> \<le> 2 powi (round_exp n d + 53)"
    using round_exp_ge(1) [of n d] by (intro power_int_increasing) simp_all
  finally show ?thesis
    by (simp only: scaled_less_mult_iff [OF d] pow2_53_powi)
qed

lemma scaled_ge_2_52:
  assumes n: "0 < n" and d: "0 < d" and normal: "- 1074 \<le> ilog2 n d - 52"
  shows "2 ^ 52 * (d * 2 ^ nat (round_exp n d)) \<le> n * 2 ^ nat (- round_exp n d)"
proof -
  from normal have e: "round_exp n d + 52 = ilog2 n d"
    by (simp add: round_exp_def)
  show ?thesis
    using ilog2_bounds(1) [OF n d] by (simp only: scaled_mult_le_iff [OF d] pow2_52_powi e)
qed

lemma round_nd_eq:
  "round_nd s n d =
     (if n = 0 then Finite s 0 (- 1074)
      else if round_mant n d = 2 ^ 53
        then (if 970 < round_exp n d then Infinity s else Finite s (2 ^ 52) (round_exp n d + 1))
      else if 971 < round_exp n d then Infinity s
      else Finite s (round_mant n d) (round_exp n d))"
  by (simp add: round_nd_def Let_def)

lemma round_mant_le:
  assumes "0 < n" "0 < d"
  shows "round_mant n d \<le> 2 ^ 53"
  unfolding round_mant_def
  using scaled_less_2_53 [OF assms] assms(2) by (intro rne_div_le_bound) simp_all

lemma round_mant_ge:
  assumes "0 < n" "0 < d" "- 1074 \<le> ilog2 n d - 52"
  shows "2 ^ 52 \<le> round_mant n d"
  unfolding round_mant_def
  using scaled_ge_2_52 [OF assms] assms(2) by (intro rne_div_ge_bound) simp_all

lemma round_exp_cases:
  obtains "- 1074 \<le> ilog2 n d - 52" "round_exp n d = ilog2 n d - 52"
  | "round_exp n d = - 1074"
proof (cases "- 1074 \<le> ilog2 n d - 52")
  case True
  then show ?thesis by (intro that(1)) (simp_all add: round_exp_def)
next
  case False
  then show ?thesis by (intro that(2)) (simp add: round_exp_def)
qed

lemma wf_round_nd [py_wf]:
  assumes d: "0 < d"
  shows "wf_float (round_nd s n d)"
proof (cases "n = 0")
  case True
  then show ?thesis by (simp add: round_nd_eq)
next
  case False
  then have n: "0 < n" by simp
  have le: "round_mant n d \<le> 2 ^ 53" by (rule round_mant_le [OF n d])
  have norm: "2 ^ 52 \<le> round_mant n d \<or> round_exp n d = - 1074"
    using round_mant_ge [OF n d] by (cases rule: round_exp_cases [of n d]) simp_all
  from le norm round_exp_ge(2) [of n d] False show ?thesis
    by (auto simp: round_nd_eq)
qed

section \<open>Accuracy of rounding\<close>

text \<open>
  A finite result is within half a unit of its last place of the quotient, and
  within a relative error of \<open>2\<^sup>-\<^sup>5\<^sup>3\<close> of it in the normal range.
\<close>

lemma sign_bit_round_nd [simp]: "sign_bit (round_nd s n d) = s"
  by (simp add: round_nd_eq)

lemma round_mant_0 [simp]: "0 < d \<Longrightarrow> round_mant 0 d = 0"
  by (simp add: round_mant_def rne_div_def)

lemma abs_val_round_nd:
  assumes "0 < d" and "is_finite (round_nd s n d)"
  shows "abs_val (round_nd s n d) = real (round_mant n d) * 2 powi (round_exp n d)"
proof -
  have "real (2 ^ 52) * 2 powi (round_exp n d + 1) = real (2 ^ 53) * 2 powi (round_exp n d)"
    by (simp add: power_int_add)
  with assms show ?thesis
    by (auto simp: round_nd_eq split: if_splits)
qed

lemma round_mant_error:
  assumes d: "0 < d"
  shows "\<bar>real (round_mant n d) * 2 powi (round_exp n d) - real n / real d\<bar>
           \<le> 2 powi (round_exp n d) / 2"
proof -
  define e where "e = round_exp n d"
  define q where "q = real n / real d"
  have pos: "0 < (2::real) powi e" by simp
  have "\<bar>real (round_mant n d) - q * 2 powi (- e)\<bar> \<le> 1 / 2"
    using rne_div_error [of "d * 2 ^ nat e" "n * 2 ^ nat (- e)"] d
    by (simp only: round_mant_def e_def [symmetric] q_def scaled_quotient [OF d]) simp
  then have "\<bar>real (round_mant n d) - q * 2 powi (- e)\<bar> * 2 powi e \<le> 1 / 2 * 2 powi e"
    using pos by (intro mult_right_mono) simp_all
  also have "\<bar>real (round_mant n d) - q * 2 powi (- e)\<bar> * 2 powi e =
      \<bar>(real (round_mant n d) - q * 2 powi (- e)) * 2 powi e\<bar>"
    using pos by (simp add: abs_mult)
  also have "(real (round_mant n d) - q * 2 powi (- e)) * 2 powi e =
      real (round_mant n d) * 2 powi e - q"
    by (simp add: algebra_simps power_int_minus)
  finally show ?thesis by (simp add: e_def q_def)
qed

lemma round_nd_error:
  assumes "0 < d" and "is_finite (round_nd s n d)"
  shows "\<bar>abs_val (round_nd s n d) - real n / real d\<bar> \<le> 2 powi (round_exp n d) / 2"
  using round_mant_error [OF assms(1)] by (simp add: abs_val_round_nd [OF assms])

lemma round_nd_rel_error:
  assumes d: "0 < d" and fin: "is_finite (round_nd s n d)"
    and normal: "2 powi (- 1022) \<le> real n / real d"
  shows "\<bar>abs_val (round_nd s n d) - real n / real d\<bar> \<le> real n / real d / 2 ^ 53"
proof -
  have n: "0 < n"
    using normal d by (cases "n = 0") simp_all
  have "- 1022 \<le> ilog2 n d" by (rule ilog2_ge [OF n d normal])
  then have e: "round_exp n d = ilog2 n d - 52" by (simp add: round_exp_def)
  have "(2::real) powi (round_exp n d) / 2 = 2 powi (ilog2 n d) / 2 ^ 53"
    by (simp add: e power_int_diff)
  also have "\<dots> \<le> real n / real d / 2 ^ 53"
    using ilog2_bounds(1) [OF n d] by (simp add: divide_right_mono)
  finally show ?thesis
    using round_nd_error [OF d fin] by linarith
qed

section \<open>Representable values are fixed by rounding\<close>

lemma round_scaled_exact:
  assumes e: "round_exp (m * 2 ^ nat e) (2 ^ nat (- e)) = e"
  shows "round_mant (m * 2 ^ nat e) (2 ^ nat (- e)) = m"
proof -
  have h: "m * 2 ^ nat e * 2 ^ nat (- e) = m * (2 ^ nat (- e) * 2 ^ nat e)"
    by (simp add: mult_ac)
  have pos: "0 < (2::nat) ^ nat (- e) * 2 ^ nat e"
    by simp
  show ?thesis
    unfolding round_mant_def e h by (rule rne_div_exact [OF pos])
qed

lemma ilog2_normal:
  assumes "2 ^ 52 \<le> m" "m < 2 ^ 53"
  shows "ilog2 (m * 2 ^ nat e) (2 ^ nat (- e)) = e + 52"
proof (rule ilog2_unique)
  from assms have "real (2 ^ 52) \<le> real m" "real m < real (2 ^ 53)"
    by (simp_all only: of_nat_le_iff of_nat_less_iff)
  then have *: "real (2 ^ 52) * 2 powi e \<le> real m * 2 powi e"
    "real m * 2 powi e < real (2 ^ 53) * 2 powi e"
    by simp_all
  have eq: "e + 52 + 1 = e + 53" by simp
  show "2 powi (e + 52) \<le> real (m * 2 ^ nat e) / real (2 ^ nat (- e))"
    "real (m * 2 ^ nat e) / real (2 ^ nat (- e)) < 2 powi (e + 52 + 1)"
    unfolding quotient_powi eq pow2_52_powi [symmetric] pow2_53_powi [symmetric]
    by (fact *)+
qed (use assms in simp_all)

lemma round_exp_subnormal:
  assumes "0 < m" "m < 2 ^ 52" "e \<le> - 1074"
  shows "round_exp (m * 2 ^ nat e) (2 ^ nat (- e)) = - 1074"
proof -
  from assms have "real m < real (2 ^ 52)"
    by (simp only: of_nat_less_iff)
  then have "real m * 2 powi e < real (2 ^ 52) * 2 powi e"
    by simp
  then have "real (m * 2 ^ nat e) / real (2 ^ nat (- e)) < 2 powi (e + 51 + 1)"
    by (simp only: quotient_powi pow2_52_powi) (simp add: add.commute)
  then have "ilog2 (m * 2 ^ nat e) (2 ^ nat (- e)) \<le> e + 51"
    using assms(1) by (intro ilog2_le) simp_all
  with assms(3) show ?thesis by (simp add: round_exp_def)
qed

section \<open>Overflow\<close>

lemma overflow_threshold_bounds:
  "2 powi 1023 \<le> real overflow_threshold" "real overflow_threshold \<le> 2 powi 1024"
  by (simp_all add: overflow_threshold_def)

lemma overflow_threshold_pos [simp]: "0 < overflow_threshold"
  by (simp add: overflow_threshold_def)

lemma round_mant_top_iff:
  assumes n: "0 < n" and d: "0 < d" and e: "round_exp n d = 971"
  shows "round_mant n d = 2 ^ 53 \<longleftrightarrow> overflow_threshold * d \<le> n"
proof -
  have m: "round_mant n d = rne_div n (d * 2 ^ 971)"
    by (simp add: round_mant_def e)
  have "round_mant n d = 2 ^ 53 \<longleftrightarrow> Suc (2 ^ 53 - 1) \<le> round_mant n d"
    using round_mant_le [OF n d] by simp
  also have "\<dots> \<longleftrightarrow> (2 * (2 ^ 53 - 1) + 1) * (d * 2 ^ 971) \<le> 2 * n"
    unfolding m using d by (intro rne_div_ge_Suc_odd_iff) simp_all
  also have "(2 * (2 ^ 53 - 1) + 1) * (d * 2 ^ 971) = 2 * (overflow_threshold * d)"
    by (simp add: overflow_threshold_def)
  finally show ?thesis by simp
qed

lemma round_nd_inf_iff:
  assumes d: "0 < d"
  shows "is_inf (round_nd s n d) \<longleftrightarrow> overflow_threshold * d \<le> n"
proof (cases "n = 0")
  case True
  with d show ?thesis by (simp add: round_nd_eq)
next
  case False
  then have n: "0 < n" by simp
  note b = ilog2_bounds [OF n d]
  consider (big) "1024 \<le> ilog2 n d" | (edge) "ilog2 n d = 1023" | (small) "ilog2 n d \<le> 1022"
    by linarith
  then show ?thesis
  proof cases
    case big
    then have "(2::real) powi 1024 \<le> 2 powi (ilog2 n d)"
      by (simp only: pow2_le_iff)
    with b(1) overflow_threshold_bounds(2) have "real overflow_threshold \<le> real n / real d"
      by linarith
    moreover from big round_exp_ge(1) [of n d] have "971 < round_exp n d"
      by linarith
    ultimately show ?thesis
      using False by (simp add: round_nd_eq mult_le_iff_real [OF d])
  next
    case edge
    then have e: "round_exp n d = 971" by (simp add: round_exp_def)
    show ?thesis
      using False round_mant_top_iff [OF n d e] by (simp add: round_nd_eq e)
  next
    case small
    then have "(2::real) powi (ilog2 n d + 1) \<le> 2 powi 1023"
      by (simp only: pow2_le_iff)
    with b(2) overflow_threshold_bounds(1) have "\<not> real overflow_threshold \<le> real n / real d"
      by linarith
    moreover from small have "round_exp n d \<le> 970"
      by (simp add: round_exp_def)
    ultimately show ?thesis
      using False by (simp add: round_nd_eq mult_le_iff_real [OF d])
  qed
qed

section \<open>Multiplication, squaring and literals\<close>

text \<open>
  The literal and the product inherit well-formedness, overflow threshold and
  accuracy from \<open>round_nd\<close>.  Of \<^verbatim>\<open>x**2\<close> the lemmas say when it raises, what it
  returns without calling the C library, and what follows from each of the two
  assumptions on the library: with \<open>libm_exact_at\<close> it is \<^verbatim>\<open>x * x\<close> except that
  it raises where that product of finite values overflows; with
  \<open>libm_faithful_at\<close> it returns a finite, non-negative value within one unit in
  the last place.
\<close>

lemma is_finite_iff: "is_finite x \<longleftrightarrow> \<not> is_inf x \<and> \<not> is_nan x"
  by (cases x) simp_all

lemma is_nan_round_nd [simp]: "\<not> is_nan (round_nd s n d)"
  by (simp add: round_nd_eq)

lemma is_finite_round_nd: "is_finite (round_nd s n d) \<longleftrightarrow> \<not> is_inf (round_nd s n d)"
  by (simp add: is_finite_iff)

lemma abs_val_nonneg [simp]: "0 \<le> abs_val x"
  by (cases x) simp_all

lemma valof_eq: "valof x = (if sign_bit x then - 1 else 1) * abs_val x"
  by (simp add: valof_def)

lemma abs_valof [simp]: "\<bar>valof x\<bar> = abs_val x"
  by (simp add: valof_def)

lemma wf_float_mul [py_wf]: "wf_float (float_mul a b)"
  by (cases a; cases b) (simp_all add: wf_round_nd)

lemma abs_val_product:
  "real (m * m' * 2 ^ nat (e + e')) / real (2 ^ nat (- (e + e'))) =
     abs_val (Finite s m e) * abs_val (Finite t m' e')"
  by (simp only: quotient_powi abs_val.simps) (simp add: power_int_add)

lemma sign_bit_float_mul:
  "is_finite a \<Longrightarrow> is_finite b \<Longrightarrow> sign_bit (float_mul a b) = (sign_bit a \<noteq> sign_bit b)"
  by (cases a; cases b) simp_all

lemma float_mul_inf_iff:
  assumes "is_finite a" "is_finite b"
  shows "is_inf (float_mul a b) \<longleftrightarrow> real overflow_threshold \<le> abs_val a * abs_val b"
proof -
  from assms obtain s m e t m' e' where ab: "a = Finite s m e" "b = Finite t m' e'"
    by (cases a; cases b) simp_all
  show ?thesis
    unfolding ab float_mul.simps
    by (simp only: round_nd_inf_iff mult_le_iff_real abs_val_product [of m m' e e' s t]
        zero_less_power zero_less_numeral)
qed

lemma float_mul_error:
  assumes "is_finite a" "is_finite b" "is_finite (float_mul a b)"
    and "2 powi (- 1022) \<le> abs_val a * abs_val b"
  shows "\<bar>abs_val (float_mul a b) - abs_val a * abs_val b\<bar> \<le> abs_val a * abs_val b / 2 ^ 53"
proof -
  from assms obtain s m e t m' e' where ab: "a = Finite s m e" "b = Finite t m' e'"
    by (cases a; cases b) simp_all
  have d: "0 < (2::nat) ^ nat (- (e + e'))" by simp
  from assms(3,4) show ?thesis
    unfolding ab float_mul.simps abs_val_product [of m m' e e' s t, symmetric]
    by (rule round_nd_rel_error [OF d])
qed

lemma float_one_sq:
  "round_nd False (2 ^ 52 * 2 ^ 52 * 2 ^ nat (- 52 + - 52)) (2 ^ nat (- (- 52 + - 52))) =
     Finite False (2 ^ 52) (- 52)"
  by (simp add: py_eval)

lemma float_mul_abs [simp]: "float_mul (float_abs x) (float_abs x) = float_mul x x"
  by (cases x) simp_all

lemma float_mul_zero_sq: "is_zero x \<Longrightarrow> float_mul x x = Finite False 0 (- 1074)"
  by (cases x) (simp_all add: round_nd_eq)

lemma float_mul_one_sq: "is_one (float_abs x) \<Longrightarrow> float_mul x x = Finite False (2 ^ 52) (- 52)"
  using float_one_sq by (cases x) simp_all

lemma float_mul_self_inf: "is_inf x \<Longrightarrow> float_mul x x = Infinity False"
  by (cases x) simp_all

lemma float_mul_self_nan: "is_nan x \<Longrightarrow> float_mul x x = x"
  by (cases x) simp_all

lemma float_classes:
  "is_zero x \<Longrightarrow> \<not> is_nan x \<and> \<not> is_inf x \<and> \<not> is_one (float_abs x)"
  "is_one (float_abs x) \<Longrightarrow> \<not> is_nan x \<and> \<not> is_inf x \<and> \<not> is_zero x"
  "is_inf x \<Longrightarrow> \<not> is_nan x"
  by (cases x; simp)+

lemma float_pow2_Inl_iff:
  "float_pow2 pw x = Inl err \<longleftrightarrow>
     err = OverflowError \<and> is_finite x \<and> \<not> is_zero x \<and> \<not> is_one (float_abs x) \<and>
     adjust_erange (pw (float_abs x))"
  by (cases x) (auto simp: float_pow2_def Let_def)

lemma float_pow2_raises_OverflowError: "float_pow2 pw x = Inl err \<Longrightarrow> err = OverflowError"
  by (simp add: float_pow2_Inl_iff)

lemma float_pow2_nonfinite:
  "\<not> is_finite f \<Longrightarrow> float_pow2 pw f = Inr (if is_nan f then NaN else Infinity False)"
  by (cases f) (simp_all add: float_pow2_def)

lemma adjust_erange_exact:
  "libm_exact_at pw x \<Longrightarrow> adjust_erange (pw (float_abs x)) \<longleftrightarrow> is_inf (float_mul x x)"
  by (cases "float_mul x x") (auto simp: libm_exact_at_def adjust_erange_def)

lemma float_pow2_exact:
  assumes "libm_exact_at pw x"
  shows "float_pow2 pw x =
     (if is_finite x \<and> is_inf (float_mul x x) then Inl OverflowError else Inr (float_mul x x))"
proof -
  consider "is_nan x" | "is_inf x" | "is_zero x" | "is_one (float_abs x)" "is_finite x"
    | "is_finite x" "\<not> is_zero x" "\<not> is_one (float_abs x)"
    by (cases x) auto
  then show ?thesis
  proof cases
    case 5
    with assms adjust_erange_exact [OF assms] show ?thesis
      by (simp add: float_pow2_def Let_def is_finite_iff libm_exact_at_def)
  qed (auto simp: float_pow2_def float_mul_zero_sq float_mul_one_sq float_mul_self_inf
      float_mul_self_nan is_finite_iff dest: float_classes)
qed

lemma libm_exact_at_pow_rn [simp]: "libm_exact_at pow_rn x"
  by (simp add: libm_exact_at_def pow_rn_def)

lemma float_pow2_pow_rn [py_eval]:
  "float_pow2 pow_rn x =
     (case float_mul x x of
        Infinity s \<Rightarrow> if is_finite x then Inl OverflowError else Inr (Infinity s)
      | r \<Rightarrow> Inr r)"
  by (cases "float_mul x x") (simp_all add: float_pow2_exact)

lemma sign_bit_float_pow2:
  assumes "float_pow2 pw x = Inr r" "\<not> sign_bit (fst (pw (float_abs x)))"
  shows "\<not> sign_bit r"
  using assms by (cases x) (auto simp: float_pow2_def Let_def split: if_splits)

lemma wf_float_pow2 [py_wf]:
  assumes "float_pow2 pw x = Inr r" "wf_float (fst (pw (float_abs x)))"
  shows "wf_float r"
  using assms by (cases x) (auto simp: float_pow2_def Let_def split: if_splits)

lemma abs_val_one: "is_one x \<Longrightarrow> abs_val x = 1"
  by (cases x) (simp_all add: power_int_minus)

lemma abs_val_float_abs [simp]: "abs_val (float_abs x) = abs_val x"
  by (cases x) simp_all

lemma abs_val_zero: "is_zero x \<Longrightarrow> abs_val x = 0"
  by (cases x) simp_all

lemma float_pow2_faithful:
  assumes "libm_faithful_at pw x" "is_finite x"
  obtains r where "float_pow2 pw x = Inr r" "is_finite r" "\<not> sign_bit r" "wf_float r"
    "\<bar>abs_val r - (abs_val x)\<^sup>2\<bar> \<le> (abs_val x)\<^sup>2 / 2 ^ 52"
proof -
  consider "is_zero x" | "is_one (float_abs x)" | "\<not> is_zero x" "\<not> is_one (float_abs x)"
    by blast
  then show thesis
  proof cases
    case 1
    with assms(2) show ?thesis
      by (intro that [of "Finite False 0 (- 1074)"]) (simp_all add: float_pow2_def is_finite_iff abs_val_zero)
  next
    case 2
    from abs_val_one [OF 2] have "abs_val x = 1" by simp
    with 2 assms(2) show ?thesis
      by (intro that [of "Finite False (2 ^ 52) (- 52)"])
        (auto simp: float_pow2_def is_finite_iff power_int_minus dest: float_classes)
  next
    case 3
    with assms show ?thesis
      by (intro that [of "fst (pw (float_abs x))"])
        (simp_all add: float_pow2_def Let_def is_finite_iff libm_faithful_at_def adjust_erange_def)
  qed
qed

lemma wf_float_lit [py_wf]: "wf_float (float_lit m k)"
  by (simp add: float_lit_def wf_round_nd)

lemma sign_bit_float_lit [simp]: "\<not> sign_bit (float_lit m k)"
  by (simp add: float_lit_def)

lemma float_lit_error:
  assumes "is_finite (float_lit m k)" "2 powi (- 1022) \<le> real m / 10 ^ k"
  shows "\<bar>abs_val (float_lit m k) - real m / 10 ^ k\<bar> \<le> real m / 10 ^ k / 2 ^ 53"
  using round_nd_rel_error [of "10 ^ k" False m] assms by (simp add: float_lit_def)

lemma float_lit_pi: "float_lit 314159 5 = Finite False 7074231776675438 (- 51)"
  by (simp add: py_eval)

section \<open>The rounded value is a nearest one\<close>

lemma round_nd_zero [simp]: "round_nd s 0 d = Finite s 0 (- 1074)"
  by (simp add: round_nd_eq)

lemma multiple_of_ulp:
  assumes "e \<le> e'"
  shows "real m' * 2 powi e' = real (m' * 2 ^ nat (e' - e)) * 2 powi e"
proof -
  have "(2::real) powi e' = 2 powi (e' - e) * 2 powi e"
    by (simp flip: power_int_add)
  also have "(2::real) powi (e' - e) = 2 ^ nat (e' - e)"
    using assms by (simp add: power_int_def)
  finally show ?thesis by simp
qed

lemma round_mant_nearest:
  assumes d: "0 < d"
  shows "\<bar>real (round_mant n d) * 2 powi (round_exp n d) - real n / real d\<bar>
           \<le> \<bar>real k * 2 powi (round_exp n d) - real n / real d\<bar>"
proof -
  define e where "e = round_exp n d"
  define q where "q = real n / real d"
  have pos: "0 < (2::real) powi e" by simp
  have scale: "\<bar>real j * 2 powi e - q\<bar> = \<bar>real j - q * 2 powi (- e)\<bar> * 2 powi e" for j
  proof -
    have "real j * 2 powi e - q = (real j - q * 2 powi (- e)) * 2 powi e"
      by (simp add: algebra_simps power_int_minus)
    then show ?thesis by (simp add: abs_mult)
  qed
  have "\<bar>real (round_mant n d) - q * 2 powi (- e)\<bar> \<le> \<bar>real k - q * 2 powi (- e)\<bar>"
    using rne_div_nearest [of "d * 2 ^ nat e" "n * 2 ^ nat (- e)" k] d
    by (simp only: round_mant_def e_def [symmetric] q_def scaled_quotient [OF d]) simp
  then show ?thesis
    unfolding e_def [symmetric] q_def [symmetric] scale using pos by (intro mult_right_mono) simp_all
qed

lemma below_binade:
  assumes wf: "m' < 2 ^ 53" and lt: "e' < e"
  shows "real m' * 2 powi e' \<le> 2 powi (e + 52)"
proof -
  from wf have "real m' \<le> real (2 ^ 53)"
    by (simp only: of_nat_le_iff)
  then have "real m' * 2 powi e' \<le> real (2 ^ 53) * 2 powi e'"
    by (intro mult_right_mono) simp_all
  also have "\<dots> = 2 powi (e' + 53)" by (rule pow2_53_powi)
  also from lt have "\<dots> \<le> 2 powi (e + 52)" by simp
  finally show ?thesis .
qed

lemma round_nd_nearest_abs:
  assumes d: "0 < d" and fin: "is_finite (round_nd s n d)"
    and y: "wf_float (Finite t m' e')"
  shows "\<bar>abs_val (round_nd s n d) - real n / real d\<bar>
           \<le> \<bar>abs_val (Finite t m' e') - real n / real d\<bar>"
proof -
  consider (zero) "n = 0" | (coarse) "round_exp n d \<le> e'" | (fine) "0 < n" "e' < round_exp n d"
    by fastforce
  then show ?thesis
  proof cases
    case zero
    then show ?thesis by simp
  next
    case coarse
    show ?thesis
      unfolding abs_val_round_nd [OF d fin] abs_val.simps multiple_of_ulp [OF coarse]
      by (rule round_mant_nearest [OF d])
  next
    case fine
    define q where "q = real n / real d"
    define e where "e = round_exp n d"
    from fine y have lt: "e' < e" and e: "e + 52 = ilog2 n d"
      by (auto simp: e_def round_exp_def)
    from y have "m' < 2 ^ 53" by simp
    from below_binade [OF this lt] ilog2_bounds(1) [OF fine(1) d]
    have le: "real m' * 2 powi e' \<le> 2 powi (e + 52)" "2 powi (e + 52) \<le> q"
      by (simp_all add: e q_def)
    have "\<bar>real (round_mant n d) * 2 powi e - q\<bar> \<le> \<bar>real (2 ^ 52) * 2 powi e - q\<bar>"
      unfolding e_def q_def by (rule round_mant_nearest [OF d])
    also have "\<dots> = q - 2 powi (e + 52)"
      using le(2) by (simp only: pow2_52_powi)
    also have "\<dots> \<le> \<bar>real m' * 2 powi e' - q\<bar>"
      using le by simp
    finally show ?thesis
      by (simp add: abs_val_round_nd [OF d fin] e_def q_def)
  qed
qed

lemma abs_diff_signed_ge:
  fixes a q :: real
  assumes "0 \<le> a" "0 \<le> q"
  shows "\<bar>a - q\<bar> \<le> \<bar>(if t then - a else a) - (if s then - 1 else 1) * q\<bar>"
  using assms by (auto simp: abs_if)

section \<open>Signs, special values and the literal of \<^verbatim>\<open>circle\<close>\<close>

lemma float_mul_not_nan:
  "is_finite a \<Longrightarrow> is_finite b \<Longrightarrow> \<not> is_nan (float_mul a b)"
  by (cases a; cases b) simp_all

lemma sign_bit_float_mul_nonneg:
  "\<not> sign_bit a \<Longrightarrow> \<not> sign_bit b \<Longrightarrow> \<not> sign_bit (float_mul a b)"
  by (cases a; cases b) simp_all

lemma sq_valof [simp]: "(valof f)\<^sup>2 = (abs_val f)\<^sup>2"
  by (simp add: valof_def)

lemma below_threshold: "x \<le> 2 powi 1021 \<Longrightarrow> x < real overflow_threshold"
proof -
  assume "x \<le> 2 powi 1021"
  also have "(2::real) powi 1021 < 2 powi 1023" by simp
  also note overflow_threshold_bounds(1)
  finally show ?thesis .
qed

lemma pi_float_value:
  "abs_val (float_lit 314159 5) = 7074231776675438 / 2 ^ 51"
  by (simp add: float_lit_pi power_int_minus)

lemma pi_float_error:
  "\<bar>abs_val (float_lit 314159 5) - 314159 / 100000\<bar> \<le> 1 / 2 ^ 53 * (314159 / 100000)"
  unfolding pi_float_value by simp

lemma pi_float_bounds: "2 \<le> abs_val (float_lit 314159 5)" "abs_val (float_lit 314159 5) \<le> 3.2"
  unfolding pi_float_value by simp_all

lemma float_mul_pi_nonfinite:
  "float_mul (float_lit 314159 5) NaN = NaN"
  "float_mul (float_lit 314159 5) (Infinity False) = Infinity False"
  by (simp_all add: float_lit_pi)

section \<open>Properties of the float operations\<close>

text \<open>
  C14: Rounding is to nearest: a finite result of \<open>round_nd\<close> is at least as
  close to the exact signed quotient as every other finite binary64 value.
\<close>

theorem round_nd_nearest:
  assumes "0 < d" and "is_finite (round_nd s n d)" and "wf_float y" and "is_finite y"
  shows "\<bar>valof (round_nd s n d) - (if s then - 1 else 1) * (real n / real d)\<bar>
           \<le> \<bar>valof y - (if s then - 1 else 1) * (real n / real d)\<bar>"
proof -
  define q where "q = real n / real d"
  from assms(3,4) obtain t m' e' where y: "y = Finite t m' e'" "wf_float (Finite t m' e')"
    by (cases y) simp_all
  have q: "0 \<le> q" by (simp add: q_def)
  have "\<bar>valof (round_nd s n d) - (if s then - 1 else 1) * q\<bar> = \<bar>abs_val (round_nd s n d) - q\<bar>"
    by (cases s) (simp_all add: valof_eq abs_minus_commute)
  also have "\<dots> \<le> \<bar>abs_val y - q\<bar>"
    unfolding q_def y(1) by (rule round_nd_nearest_abs [OF assms(1,2) y(2)])
  also have "\<dots> \<le> \<bar>valof y - (if s then - 1 else 1) * q\<bar>"
    unfolding valof_def by (rule abs_diff_signed_ge [OF abs_val_nonneg q])
  finally show ?thesis by (simp add: q_def)
qed

text \<open>
  C22: A value that binary64 represents is returned unchanged by rounding:
  mantissa and exponent of a well-formed float are those of its rounded value.
\<close>

theorem round_nd_representable:
  assumes "wf_float (Finite s m e)"
  shows "round_nd s (m * 2 ^ nat e) (2 ^ nat (- e)) = Finite s m e"
proof -
  consider "2 ^ 52 \<le> m" | "m = 0" | "0 < m" "m < 2 ^ 52"
    by linarith
  then show ?thesis
  proof cases
    case 1
    with assms have e: "round_exp (m * 2 ^ nat e) (2 ^ nat (- e)) = e"
      by (simp add: round_exp_def ilog2_normal)
    from 1 assms show ?thesis
      by (simp add: round_nd_eq e round_scaled_exact [OF e])
  next
    case 2
    with assms show ?thesis by (simp add: round_nd_eq)
  next
    case 3
    with assms have e: "e = - 1074" by simp
    then have "e \<le> - 1074" by simp
    from round_exp_subnormal [OF 3 this] have re: "round_exp (m * 2 ^ nat e) (2 ^ nat (- e)) = e"
      by (simp only: e)
    from 3 assms have "m \<noteq> 2 ^ 53" "\<not> 971 < e" "\<not> 970 < e" by simp_all
    with 3(1) show ?thesis
      by (simp add: round_nd_eq re round_scaled_exact [OF re])
  qed
qed

text \<open>
  C20: The literal and the product are well-formed binary64 values for all
  arguments, well-formed or not, and so is the square whenever the value the C
  library returns is.
\<close>

theorem float_ops_wf:
  "wf_float (float_lit m k) \<and> wf_float (float_mul a b) \<and>
   (\<forall>r. wf_float (fst (pw (float_abs x))) \<longrightarrow> float_pow2 pw x = Inr r \<longrightarrow> wf_float r)"
  by (simp add: py_wf)

text \<open>
  C15: Where the C library's \<^verbatim>\<open>pow\<close> is correctly rounded at \<open>x\<close> and sets
  \<^verbatim>\<open>errno\<close> only on overflow or underflow to zero, \<^verbatim>\<open>x**2\<close> raises only
  \<open>OverflowError\<close>, and exactly when \<open>x\<close> is finite and its exact square is at
  least \<open>2\<^sup>1\<^sup>0\<^sup>2\<^sup>4 - 2\<^sup>9\<^sup>7\<^sup>0\<close>, the least value that rounds to infinity.
\<close>

theorem float_pow2_raises_iff:
  assumes "libm_exact_at pw x"
  shows "float_pow2 pw x = Inl err \<longleftrightarrow>
     err = OverflowError \<and> is_finite x \<and> real overflow_threshold \<le> (valof x)\<^sup>2"
proof -
  have "(valof x)\<^sup>2 = abs_val x * abs_val x"
    by (simp add: valof_def power2_eq_square)
  then show ?thesis
    by (auto simp: float_pow2_exact [OF assms] float_mul_inf_iff is_finite_iff)
qed

text \<open>
  C21: The product of two finite floats, when finite and not below the normal
  range, is within a relative error of \<open>2\<^sup>-\<^sup>5\<^sup>3\<close> of the exact product of their
  values, sign included.
\<close>

theorem float_mul_correctly_rounded:
  assumes "is_finite a" "is_finite b" "is_finite (float_mul a b)"
    and "2 powi (- 1022) \<le> \<bar>valof a * valof b\<bar>"
  shows "\<bar>valof (float_mul a b) - valof a * valof b\<bar> \<le> \<bar>valof a * valof b\<bar> / 2 ^ 53"
proof -
  have "valof (float_mul a b) - valof a * valof b =
      (if sign_bit a \<noteq> sign_bit b then - 1 else 1) * (abs_val (float_mul a b) - abs_val a * abs_val b)"
    using assms(1,2) by (simp add: valof_eq sign_bit_float_mul algebra_simps)
  then have "\<bar>valof (float_mul a b) - valof a * valof b\<bar> =
      \<bar>abs_val (float_mul a b) - abs_val a * abs_val b\<bar>"
    by (simp add: abs_mult)
  with float_mul_error [OF assms(1-3)] assms(4) show ?thesis
    by (simp add: abs_mult)
qed

text \<open>
  C23: Rounding gives a finite value exactly for the quotients below
  \<open>2\<^sup>1\<^sup>0\<^sup>2\<^sup>4 - 2\<^sup>9\<^sup>7\<^sup>0\<close>.
\<close>

theorem round_nd_finite_iff:
  assumes "0 < d"
  shows "is_finite (round_nd s n d) \<longleftrightarrow> real n / real d < 2 ^ 1024 - 2 ^ 970"
proof -
  have T: "real overflow_threshold = 2 ^ 1024 - 2 ^ 970"
    by (simp add: overflow_threshold_def)
  show ?thesis
    unfolding T [symmetric]
    using assms by (simp add: is_finite_round_nd round_nd_inf_iff mult_le_iff_real not_le)
qed

end
