(* ===== verification/Decimal.thy ===== *)
theory Decimal
  imports Prelude
begin

text \<open>
  Decimal digit strings, as \<^verbatim>\<open>'%.2f'\<close> writes them and \<^verbatim>\<open>float(x)\<close> reads them:
  \<open>nat_to_str\<close> is the digit loop of the formatter (no leading zeros, \<open>''0''\<close>
  for zero), \<open>str_to_nat\<close> the accumulation loop of the parser, \<open>sign_text\<close>
  the sign the formatter writes before the digits.  The round trip between the
  two loops is what makes printed areas readable back.
\<close>

section \<open>Definitions\<close>

fun nat_to_str :: "nat \<Rightarrow> string" where
  "nat_to_str n =
     (if n < 10 then [digit_char n] else nat_to_str (n div 10) @ [digit_char (n mod 10)])"

definition str_to_nat :: "string \<Rightarrow> nat" where
  "str_to_nat cs = foldl (\<lambda>a c. 10 * a + digit_val c) 0 cs"

definition all_digits :: "string \<Rightarrow> bool" where
  "all_digits cs = list_all is_digit cs"

definition sign_text :: "bool \<Rightarrow> string" where
  "sign_text neg = (if neg then ''-'' else [])"

section \<open>Evaluation\<close>

declare nat_to_str.simps [simp del]

lemma sign_text_simps [simp]: "sign_text False = []" "sign_text True = ''-''"
  by (simp_all add: sign_text_def)

lemma newline_notin_sign_text [simp]: "newline \<notin> set (sign_text s)"
  by (cases s) (simp_all add: newline_def)

lemma nat_to_str_small: "n < 10 \<Longrightarrow> nat_to_str n = [digit_char n]"
  by (subst nat_to_str.simps) simp

lemma nat_to_str_large:
  "10 \<le> n \<Longrightarrow> nat_to_str n = nat_to_str (n div 10) @ [digit_char (n mod 10)]"
  by (subst nat_to_str.simps) simp

lemma nat_to_str_numeral [py_eval]:
  "nat_to_str (numeral k) =
     (if numeral k < (10::nat) then [digit_char (numeral k)]
      else nat_to_str (numeral k div 10) @ [digit_char (numeral k mod 10)])"
  by (subst nat_to_str.simps) simp

lemma nat_to_str_0 [simp]: "nat_to_str 0 = ''0''"
  by (simp add: nat_to_str_small py_eval)

lemma nat_to_str_1 [simp]: "nat_to_str (Suc 0) = ''1''"
  by (simp add: nat_to_str_small py_eval)

lemma str_to_nat_Nil [simp]: "str_to_nat [] = 0"
  by (simp add: str_to_nat_def)

lemma str_to_nat_snoc [simp]: "str_to_nat (cs @ [c]) = 10 * str_to_nat cs + digit_val c"
  by (simp add: str_to_nat_def)

lemma str_to_nat_append:
  "str_to_nat (cs @ ds) = str_to_nat cs * 10 ^ length ds + str_to_nat ds"
  by (induction ds rule: rev_induct) (simp_all add: algebra_simps flip: append_assoc)

lemma str_to_nat_Cons:
  "str_to_nat (c # cs) = digit_val c * 10 ^ length cs + str_to_nat cs"
  using str_to_nat_append [of "[c]" cs] str_to_nat_snoc [of "[]" c] by simp

lemmas [py_eval] = str_to_nat_Cons all_digits_def is_digit_def digit_val_def

section \<open>Digits and round trip\<close>

lemma all_digits_append [simp]: "all_digits (cs @ ds) \<longleftrightarrow> all_digits cs \<and> all_digits ds"
  by (simp add: all_digits_def)

lemma all_digits_Nil [simp]: "all_digits []"
  by (simp add: all_digits_def)

lemma all_digits_Cons [simp]: "all_digits (c # cs) \<longleftrightarrow> is_digit c \<and> all_digits cs"
  by (simp add: all_digits_def)

lemma nat_to_str_nonempty [simp]: "nat_to_str n \<noteq> []"
  by (subst nat_to_str.simps) simp

lemma all_digits_nat_to_str [simp]: "all_digits (nat_to_str n)"
proof (induction n rule: nat_to_str.induct)
  case (1 n)
  then show ?case
    by (cases "n < 10") (simp_all add: nat_to_str_small nat_to_str_large)
qed

lemma str_to_nat_nat_to_str [simp]: "str_to_nat (nat_to_str n) = n"
proof (induction n rule: nat_to_str.induct)
  case (1 n)
  show ?case
  proof (cases "n < 10")
    case True
    then show ?thesis
      using str_to_nat_snoc [of "[]" "digit_char n"] by (simp add: nat_to_str_small)
  next
    case False
    with 1 show ?thesis by (simp add: nat_to_str_large)
  qed
qed

lemma nat_to_str_inject [simp]: "nat_to_str m = nat_to_str n \<longleftrightarrow> m = n"
  by (metis str_to_nat_nat_to_str)



lemma all_digits_iff: "all_digits cs \<longleftrightarrow> (\<forall>c\<in>set cs. is_digit c)"
  by (simp add: all_digits_def list_all_iff)

lemma all_digits_no_newline: "all_digits cs \<Longrightarrow> newline \<notin> set cs"
  by (auto simp: all_digits_iff dest: is_digit_not_special)

section \<open>Properties of the digit loops\<close>


end
