(* ===== verification/FloatParse.thy ===== *)
theory FloatParse
  imports Binary64 Decimal
begin

text \<open>
  \<^verbatim>\<open>float(x)\<close> for a string \<open>x\<close> (lines 24 and 28), following CPython's
  \<^verbatim>\<open>PyFloat_FromString\<close>: in a text with a character outside ASCII, the
  white-space characters \<open>U+0085\<close> and \<open>U+00A0\<close> become spaces and every other
  character outside ASCII a question mark (\<open>to_ascii\<close>; strings are Latin-1, where
  no such character is a decimal digit); underscores are accepted between
  digits only and removed, ASCII white space is stripped at both ends, then the whole rest must be
  an optional sign followed by \<open>inf\<close>, \<open>infinity\<close> or \<open>nan\<close> in any letter case,
  or by a decimal numeral with an optional fraction and exponent.  The
  numeral's exact value is rounded to the nearest binary64 value; a value too
  large becomes an infinity without an error.  Anything else raises
  \<open>ValueError\<close>.
\<close>

section \<open>Definitions\<close>

definition is_space :: "char \<Rightarrow> bool" where
  "is_space c \<longleftrightarrow> of_char c \<in> {9::nat, 10, 11, 12, 13, 32}"

definition strip :: "string \<Rightarrow> string" where
  "strip s = rev (dropWhile is_space (rev (dropWhile is_space s)))"

fun underscores_ok :: "char \<Rightarrow> string \<Rightarrow> bool" where
  "underscores_ok prev [] \<longleftrightarrow> prev \<noteq> CHR ''_''"
| "underscores_ok prev (c # cs) \<longleftrightarrow>
     (if c = CHR ''_'' then is_digit prev else prev \<noteq> CHR ''_'' \<or> is_digit c) \<and>
     underscores_ok c cs"

definition remove_underscores :: "string \<Rightarrow> string" where
  "remove_underscores s = filter (\<lambda>c. c \<noteq> CHR ''_'') s"

fun ci_match :: "string \<Rightarrow> string \<Rightarrow> string \<Rightarrow> bool" where
  "ci_match [] [] [] \<longleftrightarrow> True"
| "ci_match (l # ls) (u # us) (c # cs) \<longleftrightarrow> (c = l \<or> c = u) \<and> ci_match ls us cs"
| "ci_match _ _ _ \<longleftrightarrow> False"

definition sign_of :: "string \<Rightarrow> bool" where
  "sign_of s \<longleftrightarrow> s \<noteq> [] \<and> hd s = CHR ''-''"

definition after_sign :: "string \<Rightarrow> string" where
  "after_sign s = (if s \<noteq> [] \<and> (hd s = CHR ''-'' \<or> hd s = CHR ''+'') then tl s else s)"

definition parse_exponent :: "string \<Rightarrow> int option" where
  "parse_exponent s =
     (if s = [] then Some 0
      else if hd s = CHR ''e'' \<or> hd s = CHR ''E'' then
        (let ds = after_sign (tl s)
         in if ds \<noteq> [] \<and> all_digits ds
            then Some (if sign_of (tl s) then - int (str_to_nat ds) else int (str_to_nat ds))
            else None)
      else None)"

definition parse_decimal :: "string \<Rightarrow> (nat \<times> int) option" where
  "parse_decimal s =
     (let ip = takeWhile is_digit s;
          r1 = dropWhile is_digit s;
          has_point = (r1 \<noteq> [] \<and> hd r1 = CHR ''.'');
          fp = (if has_point then takeWhile is_digit (tl r1) else []);
          r2 = (if has_point then dropWhile is_digit (tl r1) else r1)
      in if ip = [] \<and> fp = [] then None
         else map_option (\<lambda>x. (str_to_nat (ip @ fp), x - int (length fp)))
                (parse_exponent r2))"

fun float_of_decimal :: "bool \<Rightarrow> nat \<times> int \<Rightarrow> pyfloat" where
  "float_of_decimal neg (m, x) = round_nd neg (m * 10 ^ nat x) (10 ^ nat (- x))"

definition parse_unsigned :: "bool \<Rightarrow> string \<Rightarrow> pyfloat result" where
  "parse_unsigned neg r =
     (if ci_match ''inf'' ''INF'' r \<or> ci_match ''infinity'' ''INFINITY'' r
      then Inr (Infinity neg)
      else if ci_match ''nan'' ''NAN'' r then Inr NaN
      else (case parse_decimal r of
              None \<Rightarrow> Inl ValueError
            | Some mx \<Rightarrow> Inr (float_of_decimal neg mx)))"

definition float_from_string :: "string \<Rightarrow> pyfloat result" where
  "float_from_string s =
     (if \<not> underscores_ok (CHR 0x00) s then Inl ValueError
      else
        let t = strip (remove_underscores s)
        in parse_unsigned (sign_of t) (after_sign t))"

definition is_ascii :: "char \<Rightarrow> bool" where
  "is_ascii c \<longleftrightarrow> of_char c < (128::nat)"

definition to_ascii :: "char \<Rightarrow> char" where
  "to_ascii c =
     (if is_ascii c then c
      else if of_char c = (133::nat) \<or> of_char c = (160::nat) then CHR 0x20
      else CHR ''?'')"

definition py_float :: "string \<Rightarrow> pyfloat result" where
  "py_float s = float_from_string (map to_ascii s)"

lemmas [py_eval] =
  is_space_def strip_def remove_underscores_def sign_of_def after_sign_def parse_exponent_def
  parse_decimal_def parse_unsigned_def float_from_string_def is_ascii_def to_ascii_def py_float_def

section \<open>Test vectors\<close>

lemma py_float_4: "py_float ''4'' = Inr (Finite False (2 ^ 52) (- 50))"
  by (simp add: py_eval)

lemma py_float_2: "py_float ''2'' = Inr (Finite False (2 ^ 52) (- 51))"
  by (simp add: py_eval)

lemma py_float_abc: "py_float ''abc'' = Inl ValueError"
  by (simp add: py_eval)

lemma py_float_empty: "py_float '''' = Inl ValueError"
  by (simp add: py_eval)

lemma py_float_spaces: "py_float '' 2.50 '' = Inr (Finite False (5 * 2 ^ 50) (- 51))"
  by (simp add: py_eval)

lemma py_float_underscore: "py_float ''1_000'' = Inr (Finite False (1000 * 2 ^ 43) (- 43))"
  by (simp add: py_eval)

lemma py_float_bad_underscore: "py_float ''1__0'' = Inl ValueError" "py_float ''_1'' = Inl ValueError"
  by (simp_all add: py_eval)

lemma py_float_inf: "py_float ''-Infinity'' = Inr (Infinity True)" "py_float ''inf'' = Inr (Infinity False)"
  by (simp_all add: py_eval)

lemma py_float_nan: "py_float ''NaN'' = Inr NaN"
  by (simp add: py_eval)

lemma py_float_1e200: "py_float ''1e200'' = Inr (Finite False 5883593420661338 612)"
  by (simp add: py_eval)

lemma py_float_latin1_space:
  "py_float (CHR 0xA0 # ''5'' @ [CHR 0x85]) = Inr (Finite False (5 * 2 ^ 50) (- 50))"
  "py_float (CHR 0x1C # ''5'') = Inl ValueError"
  "py_float (''1'' @ [CHR 0xA0] @ ''2'') = Inl ValueError"
  "py_float (''5'' @ [CHR 0xE9]) = Inl ValueError"
  by (simp_all add: py_eval)

lemma py_float_exp: "py_float ''.5E+1'' = Inr (Finite False (5 * 2 ^ 50) (- 50))" "py_float ''1e'' = Inl ValueError"
  by (simp_all add: py_eval)

section \<open>Plain decimal numerals\<close>

text \<open>
  On a text without underscores and surrounding white space the conversion is
  the numeral parser; on digits with an optional point it returns the numeral's
  value, correctly rounded.
\<close>

lemma is_digit_not_space: "is_digit c \<Longrightarrow> \<not> is_space c"
  by (auto simp: is_digit_def is_space_def)

lemma not_space_simps [simp]: "\<not> is_space CHR ''-''" "\<not> is_space CHR ''.''"
  by (simp_all add: is_space_def)

lemma underscores_ok_plain:
  "CHR ''_'' \<notin> set s \<Longrightarrow> prev \<noteq> CHR ''_'' \<Longrightarrow> underscores_ok prev s"
  by (induction s arbitrary: prev) auto

lemma remove_underscores_plain: "CHR ''_'' \<notin> set s \<Longrightarrow> remove_underscores s = s"
  by (auto simp: remove_underscores_def filter_id_conv)

lemma strip_plain:
  assumes "s \<noteq> []" "\<not> is_space (hd s)" "\<not> is_space (last s)"
  shows "strip s = s"
proof -
  from assms have "dropWhile is_space s = s"
    by (cases s) simp_all
  moreover from assms have "dropWhile is_space (rev s) = rev s"
    by (cases "rev s") (auto simp: hd_rev [symmetric] simp del: rev_is_Nil_conv)
  ultimately show ?thesis by (simp add: strip_def)
qed

lemma ci_match_hd:
  "ci_match (l # ls) (u # us) r \<Longrightarrow> r \<noteq> [] \<and> (hd r = l \<or> hd r = u)"
  by (cases r) simp_all

lemma parse_unsigned_numeral:
  assumes "r \<noteq> []" "is_digit (hd r) \<or> hd r = CHR ''.''"
  shows "parse_unsigned neg r =
     (case parse_decimal r of None \<Rightarrow> Inl ValueError | Some mx \<Rightarrow> Inr (float_of_decimal neg mx))"
proof -
  from assms(2) have "hd r \<notin> {CHR ''i'', CHR ''I'', CHR ''n'', CHR ''N''}"
    by (auto simp: is_digit_def)
  then have "\<not> ci_match ''inf'' ''INF'' r" "\<not> ci_match ''infinity'' ''INFINITY'' r"
    "\<not> ci_match ''nan'' ''NAN'' r"
    by (auto dest!: ci_match_hd)
  then show ?thesis by (simp add: parse_unsigned_def)
qed

lemma takeWhile_digits [simp]:
  "all_digits ip \<Longrightarrow> takeWhile is_digit (ip @ CHR ''.'' # r) = ip"
  "all_digits ip \<Longrightarrow> dropWhile is_digit (ip @ CHR ''.'' # r) = CHR ''.'' # r"
  "all_digits ip \<Longrightarrow> takeWhile is_digit ip = ip"
  "all_digits ip \<Longrightarrow> dropWhile is_digit ip = []"
  by (simp_all add: all_digits_iff takeWhile_append2 dropWhile_append2 is_digit_def)

lemma parse_decimal_point:
  assumes "all_digits ip" "all_digits fp" "ip \<noteq> [] \<or> fp \<noteq> []"
  shows "parse_decimal (ip @ CHR ''.'' # fp) = Some (str_to_nat (ip @ fp), - int (length fp))"
  using assms by (auto simp: parse_decimal_def parse_exponent_def Let_def)

lemma parse_decimal_integer:
  assumes "all_digits ip" "ip \<noteq> []"
  shows "parse_decimal ip = Some (str_to_nat ip, 0)"
  using assms by (simp add: parse_decimal_def parse_exponent_def Let_def)

lemma sign_of_sign_text:
  assumes "r \<noteq> []" "hd r \<noteq> CHR ''-''" "hd r \<noteq> CHR ''+''"
  shows "sign_of (sign_text neg @ r) = neg" "after_sign (sign_text neg @ r) = r"
  using assms by (cases r; simp add: sign_of_def after_sign_def sign_text_def)+

lemma digits_plain:
  assumes "all_digits ip" "all_digits fp"
  shows "CHR ''_'' \<notin> set (sign_text neg @ ip @ ''.'' @ fp)"
  using assms by (auto simp: all_digits_iff sign_text_def dest: is_digit_not_special)

lemma map_to_ascii_id: "\<forall>c\<in>set s. is_ascii c \<Longrightarrow> map to_ascii s = s"
  by (simp add: to_ascii_def map_idI)

lemma is_digit_ascii: "is_digit c \<Longrightarrow> is_ascii c"
  by (simp add: is_digit_def is_ascii_def)

lemma numeral_ascii:
  assumes "all_digits ip" "all_digits fp"
  shows "\<forall>c\<in>set (sign_text neg @ ip @ ''.'' @ fp). is_ascii c"
    and "\<forall>c\<in>set (sign_text neg @ ip). is_ascii c"
  using assms by (auto simp: all_digits_iff sign_text_def is_digit_ascii) (simp_all add: is_ascii_def)

lemma py_float_plain:
  assumes "\<forall>c\<in>set s. is_ascii c"
    and "CHR ''_'' \<notin> set s" "s \<noteq> []" "\<not> is_space (hd s)" "\<not> is_space (last s)"
  shows "py_float s = parse_unsigned (sign_of s) (after_sign s)"
  using assms(2-)
  by (simp add: py_float_def map_to_ascii_id [OF assms(1)] float_from_string_def
      underscores_ok_plain remove_underscores_plain strip_plain)

lemma hd_numeral:
  assumes "all_digits ip" "all_digits fp"
  shows "is_digit (hd (ip @ ''.'' @ fp)) \<or> hd (ip @ ''.'' @ fp) = CHR ''.''"
  using assms by (cases ip) simp_all

lemma last_numeral:
  assumes "all_digits ip" "all_digits fp"
  shows "is_digit (last (s @ ip @ ''.'' @ fp)) \<or> last (s @ ip @ ''.'' @ fp) = CHR ''.''"
  using assms by (cases fp rule: rev_cases) simp_all

lemma py_float_decimal:
  assumes ip: "all_digits ip" and fp: "all_digits fp" and ne: "ip \<noteq> [] \<or> fp \<noteq> []"
  shows "py_float (sign_text neg @ ip @ ''.'' @ fp) =
           Inr (round_nd neg (str_to_nat (ip @ fp)) (10 ^ length fp))"
proof -
  let ?r = "ip @ ''.'' @ fp"
  note h = hd_numeral [OF ip fp]
  from h have r: "?r \<noteq> []" "hd ?r \<noteq> CHR ''-''" "hd ?r \<noteq> CHR ''+''"
    by (auto simp: is_digit_def)
  have hs: "\<not> is_space (hd (sign_text neg @ ?r))"
    using h by (cases neg) (auto simp: sign_text_def dest: is_digit_not_space)
  have ls: "\<not> is_space (last (sign_text neg @ ?r))"
    using last_numeral [OF ip fp, of "sign_text neg"] by (auto dest: is_digit_not_space)
  have ne': "sign_text neg @ ?r \<noteq> []"
    by simp
  have "py_float (sign_text neg @ ?r) =
      parse_unsigned (sign_of (sign_text neg @ ?r)) (after_sign (sign_text neg @ ?r))"
    by (rule py_float_plain [OF numeral_ascii(1) [OF ip fp] digits_plain [OF ip fp] ne' hs ls])
  also have "\<dots> = parse_unsigned neg ?r"
    by (simp only: sign_of_sign_text [OF r])
  also have "\<dots> = Inr (float_of_decimal neg (str_to_nat (ip @ fp), - int (length fp)))"
    using h by (simp add: parse_unsigned_numeral parse_decimal_point [OF ip fp ne])
  finally show ?thesis by simp
qed

lemma py_float_digits:
  assumes ip: "all_digits ip" and ne: "ip \<noteq> []"
  shows "py_float (sign_text neg @ ip) = Inr (round_nd neg (str_to_nat ip) 1)"
proof -
  from ip ne have h: "is_digit (hd ip)" and l: "is_digit (last ip)"
    by (simp_all add: all_digits_iff)
  then have r: "hd ip \<noteq> CHR ''-''" "hd ip \<noteq> CHR ''+''"
    by (auto dest: is_digit_not_special)
  have plain: "CHR ''_'' \<notin> set (sign_text neg @ ip)"
    using ip by (auto simp: all_digits_iff sign_text_def dest: is_digit_not_special)
  have hs: "\<not> is_space (hd (sign_text neg @ ip))"
    using h ne by (cases neg) (auto simp: sign_text_def dest: is_digit_not_space)
  have ls: "\<not> is_space (last (sign_text neg @ ip))"
    using l ne by (auto dest: is_digit_not_space)
  have ne': "sign_text neg @ ip \<noteq> []"
    using ne by simp
  have "py_float (sign_text neg @ ip) =
      parse_unsigned (sign_of (sign_text neg @ ip)) (after_sign (sign_text neg @ ip))"
    by (rule py_float_plain [OF numeral_ascii(2) [OF ip ip] plain ne' hs ls])
  also have "\<dots> = parse_unsigned neg ip"
    by (simp only: sign_of_sign_text [OF ne r])
  also have "\<dots> = Inr (float_of_decimal neg (str_to_nat ip, 0))"
    using h ne by (simp add: parse_unsigned_numeral parse_decimal_integer [OF ip ne])
  finally show ?thesis by simp
qed

section \<open>Results of the conversion\<close>

lemma wf_float_of_decimal [py_wf]: "wf_float (float_of_decimal neg mx)"
  by (cases mx) (simp add: wf_round_nd)

lemma wf_parse_unsigned:
  "parse_unsigned neg r = Inr f \<Longrightarrow> wf_float f"
  by (auto simp: parse_unsigned_def wf_round_nd split: if_splits option.splits)

lemma parse_unsigned_error:
  "parse_unsigned neg r = Inl e \<Longrightarrow> e = ValueError"
  by (auto simp: parse_unsigned_def split: if_splits option.splits)

lemma py_float_error:
  "py_float s = Inl e \<Longrightarrow> e = ValueError"
  by (auto simp: py_float_def float_from_string_def Let_def dest: parse_unsigned_error
      split: if_splits)

lemma wf_py_float [py_wf]:
  "py_float s = Inr f \<Longrightarrow> wf_float f"
  by (auto simp: py_float_def float_from_string_def Let_def dest: wf_parse_unsigned
      split: if_splits)

text \<open>
  C24: \<^verbatim>\<open>float(x)\<close> either raises \<open>ValueError\<close> or returns a well-formed binary64
  value: no other exception leaves the conversion, and a numeral too large or
  too small for the format is not an error.
\<close>

theorem py_float_total:
  "py_float s = Inl ValueError \<or> (\<exists>f. py_float s = Inr f \<and> wf_float f)"
  by (cases "py_float s") (auto dest: py_float_error wf_py_float)

text \<open>
  C25: Reading back the decimal digits of a natural number gives that number,
  rounded to binary64: \<^verbatim>\<open>float(str(n))\<close> is the float nearest to \<open>n\<close>.
\<close>

theorem py_float_nat_to_str:
  "py_float (nat_to_str n) = Inr (round_nd False n 1)"
  using py_float_digits [of "nat_to_str n" False] by (simp add: sign_text_def)

end
