(* ===== verification/FloatFormat.thy ===== *)
theory FloatFormat
  imports Binary64 Decimal
begin

text \<open>
  \<^verbatim>\<open>'%.2f' % a\<close> for a float \<open>a\<close> (lines 24 and 28): the exact binary value is
  rounded to a whole number of hundredths, ties to even, and printed as the
  integer part, a point and two digits, with a minus sign when the sign bit is
  set (also for \<open>-0.0\<close>).  Infinities print as \<open>inf\<close> and \<open>-inf\<close>, NaN as \<open>nan\<close>.
\<close>

section \<open>Definitions\<close>

fun hundredths :: "pyfloat \<Rightarrow> nat" where
  "hundredths (Finite s m e) = rne_div (m * 100 * 2 ^ nat e) (2 ^ nat (- e))"
| "hundredths _ = 0"

definition two_digits :: "nat \<Rightarrow> string" where
  "two_digits n = [digit_char (n mod 100 div 10), digit_char (n mod 10)]"

fun format_f2 :: "pyfloat \<Rightarrow> string" where
  "format_f2 (Finite s m e) =
     (let h = hundredths (Finite s m e)
      in sign_text s @ nat_to_str (h div 100) @ ''.'' @ two_digits h)"
| "format_f2 (Infinity s) = (if s then ''-inf'' else ''inf'')"
| "format_f2 NaN = ''nan''"

lemmas [py_eval] = two_digits_def sign_text_def

section \<open>The printed number is within half a hundredth of the value\<close>

lemma hundredths_error:
  "\<bar>real (hundredths (Finite s m e)) / 100 - abs_val (Finite s m e)\<bar> \<le> 1 / 200"
proof -
  have "real (m * 100 * 2 ^ nat e) / real (2 ^ nat (- e)) = 100 * (real m * 2 powi e)"
    by (simp add: pow2_split [of e])
  with rne_div_error [of "2 ^ nat (- e)" "m * 100 * 2 ^ nat e"]
  have "\<bar>real (rne_div (m * 100 * 2 ^ nat e) (2 ^ nat (- e))) - 100 * (real m * 2 powi e)\<bar> \<le> 1 / 2"
    by simp
  then show ?thesis unfolding hundredths.simps abs_val.simps by linarith
qed

lemma hundredths_exact:
  "hundredths (Finite s (k * 2 ^ nat (- e)) e) = k * 100 * 2 ^ nat e"
proof -
  have "k * 2 ^ nat (- e) * 100 * 2 ^ nat e = (k * 100 * 2 ^ nat e) * 2 ^ nat (- e)"
    by simp
  then show ?thesis by (simp only: hundredths.simps rne_div_exact zero_less_power zero_less_numeral)
qed

section \<open>Shape of the printed text\<close>

lemma length_two_digits [simp]: "length (two_digits n) = 2"
  by (simp add: two_digits_def)

lemma all_digits_two_digits [simp]: "all_digits (two_digits n)"
  by (simp add: two_digits_def)

lemma str_to_nat_two_digits [simp]: "str_to_nat (two_digits n) = n mod 100"
proof -
  have "n mod 100 div 10 < 10" by simp
  then have "str_to_nat (two_digits n) = 10 * (n mod 100 div 10) + n mod 10"
    by (simp add: two_digits_def str_to_nat_Cons)
  also have "n mod 10 = n mod 100 mod 10"
    by (simp add: mod_mod_cancel)
  also have "10 * (n mod 100 div 10) + n mod 100 mod 10 = n mod 100"
    by (rule mult_div_mod_eq)
  finally show ?thesis .
qed

lemma format_f2_finite_nonneg:
  "format_f2 (Finite False m e) =
     nat_to_str (hundredths (Finite False m e) div 100) @ ''.'' @
     two_digits (hundredths (Finite False m e))"
  by (simp add: Let_def)

lemma format_f2_no_newline: "newline \<notin> set (format_f2 x)"
  by (cases x) (simp_all add: Let_def all_digits_no_newline, simp_all add: newline_def)

lemma format_f2_nonempty [simp]: "format_f2 x \<noteq> []"
  by (cases x) (simp_all add: Let_def)

lemma format_f2_minus_iff:
  "hd (format_f2 x) = CHR ''-'' \<longleftrightarrow> sign_bit x"
proof (cases x)
  case (Finite s m e)
  have "is_digit (hd (nat_to_str n))" for n
    using all_digits_nat_to_str [of n] by (cases "nat_to_str n") simp_all
  then have "hd (nat_to_str n) \<noteq> CHR ''-''" for n
    using is_digit_not_special by blast
  with Finite show ?thesis by (cases s) (simp_all add: Let_def hd_append)
qed simp_all

section \<open>Digits of a finite value\<close>

lemma str_to_nat_hundredths:
  "str_to_nat (nat_to_str (h div 100) @ two_digits h) = h"
  by (simp add: str_to_nat_append)

lemma format_f2_finite:
  "format_f2 (Finite s m e) =
     sign_text s @ nat_to_str (hundredths (Finite s m e) div 100) @ ''.'' @
     two_digits (hundredths (Finite s m e))"
  by (simp add: Let_def sign_text_def)

lemma format_f2_digits:
  assumes "is_finite a" "\<not> sign_bit a"
  shows "\<exists>h. format_f2 a = nat_to_str (h div 100) @ ''.'' @ two_digits h \<and>
              \<bar>real h / 100 - abs_val a\<bar> \<le> 1 / 200"
proof -
  from assms obtain m e where a: "a = Finite False m e"
    by (cases a) simp_all
  show ?thesis
    unfolding a using hundredths_error [of False m e]
    by (intro exI [of _ "hundredths (Finite False m e)"]) (simp add: Let_def)
qed

section \<open>Properties of the formatter\<close>

text \<open>
  C27: \<^verbatim>\<open>'%.2f'\<close> is correctly rounded: no whole number of hundredths is closer
  to the value than the one printed.
\<close>

theorem hundredths_nearest:
  "\<bar>real (hundredths (Finite s m e)) - 100 * abs_val (Finite s m e)\<bar>
     \<le> \<bar>real k - 100 * abs_val (Finite s m e)\<bar>"
proof -
  have "real (m * 100 * 2 ^ nat e) / real (2 ^ nat (- e)) = 100 * (real m * 2 powi e)"
    by (simp add: pow2_split [of e])
  with rne_div_nearest [of "2 ^ nat (- e)" "m * 100 * 2 ^ nat e" k] show ?thesis
    by simp
qed

end
