(* ===== verification/Spec2Isabelle.thy ===== *)
theory Spec2Isabelle
  imports Cli FloatParse FloatFormat
begin

text \<open>
  \<^bold>\<open>A verification development for \<^verbatim>\<open>area_w_arguments.py\<close>.\<close>

  \<^bold>\<open>The program.\<close>
  \<^verbatim>\<open>src/02-Main_useful_python_modules/area_w_arguments.py\<close> is a command-line
  script of two functions and four top-level statements.  \<^verbatim>\<open>square(x)\<close> returns
  \<^verbatim>\<open>x**2\<close> and \<^verbatim>\<open>circle(r)\<close> returns \<^verbatim>\<open>pi * r**2\<close> with \<^verbatim>\<open>pi = 3.14159\<close>.  The
  module body prints a usage line and calls \<^verbatim>\<open>exit()\<close> when \<^verbatim>\<open>sys.argv\<close> has one
  element; then an \<^verbatim>\<open>if\<close> on \<^verbatim>\<open>sys.argv[1] == 'square'\<close> and an independent
  \<^verbatim>\<open>if\<close>/\<^verbatim>\<open>elif\<close> on \<^verbatim>\<open>'circle'\<close> assign \<^verbatim>\<open>x = sys.argv[2]\<close>, print
  \<^verbatim>\<open>'Area = %.2f'\<close> of the function applied to \<^verbatim>\<open>float(x)\<close>, or print
  \<^verbatim>\<open>'I do not know that shape'\<close>.  Nothing catches an exception.  What the script
  does therefore rests on the Python runtime: subscripts that raise, the
  conversion \<^verbatim>\<open>float(x)\<close>, float arithmetic, and \<^verbatim>\<open>'%.2f'\<close>.

  \<^bold>\<open>The theories\<close>, in import order, and what each models.

  \<^item> \<open>Prelude\<close>: the exceptions that can reach the top level (\<open>exn\<close>), results as
    \<open>exn + 'a\<close> with \<open>bind_result\<close>, \<open>subscript\<close> for \<^verbatim>\<open>sys.argv[i]\<close>, digits, and
    the lemma collections \<open>py_eval\<close> (equations that run the model on a concrete
    input) and \<open>py_wf\<close> (well-formedness of float results).
  \<^item> \<open>Rounding\<close>: the integer arithmetic of IEEE 754 rounding, \<open>bit_length\<close>,
    \<open>rne_div\<close> (round half to even) and \<open>ilog2\<close>, with their bounds, the
    uniqueness of the exponent, and the composition of relative errors.  These
    are modelled from IEEE 754, not from a line of the script.
  \<^item> \<open>Runtime\<close>: the record \<open>'f float_ops\<close>, the interface of the five float
    operations the script uses.
  \<^item> \<open>Area\<close>: \<open>square\<close> (lines 5-9) and \<open>circle\<close> (lines 11-16) over that
    interface.
  \<^item> \<open>Cli\<close>: the module body (lines 18-31).  The state is the record \<open>proc\<close>
    (\<open>argv\<close>, \<open>stdout\<close>, the global \<open>var_x\<close>, the pending exception \<open>raised\<close>);
    every statement is a function on it: \<open>usage_stmt\<close> (lines 18-20),
    \<open>square_stmt\<close> with \<open>square_block\<close> (lines 22-24), \<open>circle_stmt\<close> with
    \<open>circle_block\<close> and \<open>unknown_cond\<close> (lines 26-31), composed by \<open>seq_stmt\<close>,
    which skips what follows an exception, into \<open>script\<close> and \<open>main\<close>.  Reading
    \<open>x\<close> raises \<open>NameError\<close> when it is unbound, \<^verbatim>\<open>exit()\<close> raises \<open>SystemExit\<close>,
    \<open>exit_status\<close> is the status the interpreter ends with.  \<open>spec_main\<close> is the
    exclusive three-way dispatch the specification describes.
  \<^item> \<open>Binary64\<close>: \<open>pyfloat\<close> (finite values as sign, mantissa and exponent,
    infinities, NaN), \<open>round_nd\<close> (round to nearest, ties to even, overflow to
    infinity), \<open>float_lit\<close> (line 15), \<open>float_mul\<close> (line 16) and \<open>float_pow2\<close>
    (lines 9 and 16).
  \<^item> \<open>Decimal\<close>: the digit loops \<open>nat_to_str\<close> and \<open>str_to_nat\<close>.
  \<^item> \<open>FloatParse\<close>: \<open>py_float\<close>, the conversion \<^verbatim>\<open>float(x)\<close> of a string (lines
    24 and 28), after CPython's \<^verbatim>\<open>PyFloat_FromString\<close>.
  \<^item> \<open>FloatFormat\<close>: \<open>format_f2\<close>, the text of \<^verbatim>\<open>'%.2f' % a\<close> (lines 24 and 28).
  \<^item> \<open>Spec2Isabelle\<close> (this theory): \<open>py_ops pw\<close> instantiates the interface with
    the binary64 operations and \<open>run pw\<close> is the script on them; here are the
    properties that span components and the instances at concrete inputs.

  \<^bold>\<open>The C library is a parameter.\<close>  CPython computes \<^verbatim>\<open>x**2\<close> on floats with
  the C library's \<^verbatim>\<open>pow(fabs(x), 2.0)\<close>, whose accuracy differs between
  platforms and which is in general not correctly rounded.  \<open>float_pow2 pw\<close>
  therefore takes the library as the argument \<open>pw\<close>, a function from the
  argument to the result and the \<^verbatim>\<open>errno\<close> flag; it models what the interpreter
  does around the call (special values, zero, one, the sign, the adjustment of
  \<^verbatim>\<open>errno\<close>, \<open>OverflowError\<close>).  The theorems hold for every \<open>pw\<close> or name what
  they assume of it at the argument in question: \<open>libm_exact_at\<close> (correctly
  rounded), \<open>libm_faithful_at\<close> (finite, non-negative and within one unit in the
  last place), or a plain condition on the result.  \<open>pow_rn\<close> is a correctly
  rounded library; the concrete runs below use it.  Their squares are exact
  (of \<open>2\<close>, \<open>3\<close> and \<open>4\<close>) or far from the overflow threshold on either side
  (of \<open>1e154\<close> and \<open>1e200\<close>), so that a library within one unit in the last
  place gives the same output.

  \<^bold>\<open>What is proved.\<close>

  \<^item> In \<open>Cli\<close>, for every implementation of the float operations: the script
    refines the exclusive dispatch; what each branch prints, raises and leaves
    in \<open>x\<close>; at most one message per run; nothing printed before a failure;
    arguments after the value are ignored.
  \<^item> Here, for the binary64 operations: which exception ends a run and exactly
    when (never \<open>NameError\<close>); that non-finite values print \<open>inf\<close> or \<open>nan\<close>; that
    a printed area never has a minus sign; that \<open>circle\<close> prints \<open>inf\<close> without
    raising when only the product overflows; an error bound for the number
    \<open>circle\<close> prints against \<open>3.14159 * r\<^sup>2\<close>; and that \<^verbatim>\<open>float()\<close> reads back
    what \<^verbatim>\<open>'%.2f'\<close> prints.
  \<^item> In \<open>Binary64\<close>: \<open>round_nd\<close> returns a nearest representable value, fixes
    representable values, and is finite exactly below \<open>2\<^sup>1\<^sup>0\<^sup>2\<^sup>4 - 2\<^sup>9\<^sup>7\<^sup>0\<close>; results
    are well formed; the product has relative error at most \<open>2\<^sup>-\<^sup>5\<^sup>3\<close>; with a
    correctly rounded library \<^verbatim>\<open>x**2\<close> raises exactly from that threshold on.
  \<^item> In \<open>FloatParse\<close>, \<open>FloatFormat\<close>, \<open>Decimal\<close> and \<open>Rounding\<close>: the
    conversion raises only \<open>ValueError\<close> and reads decimal digits as the
    correctly rounded number; \<^verbatim>\<open>'%.2f'\<close> prints a nearest number of hundredths;
    the digit loops are inverse to each other; \<open>rne_div\<close>, \<open>ilog2\<close> and
    \<open>bit_length\<close> agree with their definitions over the reals.

  \<^bold>\<open>Bounds.\<close>  No definition uses fuel: every recursion is structural or on
  \<open>n div 2\<close> and \<open>n div 10\<close> with the termination proof of \<open>fun\<close>.  Naturals and
  integers are unbounded, as Python's are; floats are kept at 53 bits of
  mantissa and exponents from \<open>-1074\<close> to \<open>971\<close> by \<open>round_nd\<close>.

  \<^bold>\<open>What is not modelled.\<close>  Strings are lists of 8-bit characters, so arguments
  with code points above 255 are outside the model; within Latin-1 the
  conversion follows CPython, including the white-space characters \<open>U+0085\<close>
  and \<open>U+00A0\<close>.  The text of a traceback on standard error, the encoding of
  standard output and I/O errors of the stream are left out: of a failing run
  the model keeps the exception class and the exit status.  \<^verbatim>\<open>exit()\<close> is the
  function the \<^verbatim>\<open>site\<close> module installs; an interpreter started without it
  (\<^verbatim>\<open>python -S\<close>) and the closing of standard input by \<^verbatim>\<open>exit()\<close> are not
  modelled.  The shebang line and \<^verbatim>\<open>import sys\<close> have no counterpart: \<open>init_proc\<close>
  is the state in which the module body starts and \<open>sys.argv\<close> is the model's
  input.  The 64-bit encoding of floats is not modelled, since the program
  never looks at it.  Of \<^verbatim>\<open>errno\<close> only \<^verbatim>\<open>ERANGE\<close> is modelled: \<^verbatim>\<open>pow\<close> with a
  positive base and the exponent 2 has no domain error.
\<close>

section \<open>The script on binary64 floats\<close>

text \<open>
  The float operations of the interpreter: \<^verbatim>\<open>float(x)\<close>, literals, \<^verbatim>\<open>**2\<close>, \<^verbatim>\<open>*\<close>
  and \<^verbatim>\<open>'%.2f'\<close> as modelled in \<open>FloatParse\<close>, \<open>Binary64\<close> and \<open>FloatFormat\<close>, over
  a C library \<open>pw\<close> for \<^verbatim>\<open>pow\<close>.  \<open>run pw\<close> is the script as Python executes it on
  that platform.
\<close>

definition py_ops :: "libm_pow \<Rightarrow> pyfloat float_ops" where
  "py_ops pw = \<lparr>fl_parse = py_float, fl_lit = float_lit, fl_pow2 = float_pow2 pw,
                fl_mul = float_mul, fl_fmt2 = format_f2\<rparr>"

definition run :: "libm_pow \<Rightarrow> string list \<Rightarrow> proc" where
  "run pw av = main (py_ops pw) av"

lemma py_ops_simps [simp]:
  "fl_parse (py_ops pw) = py_float" "fl_lit (py_ops pw) = float_lit"
  "fl_pow2 (py_ops pw) = float_pow2 pw" "fl_mul (py_ops pw) = float_mul"
  "fl_fmt2 (py_ops pw) = format_f2"
  by (simp_all add: py_ops_def)

lemmas run_eval = run_def main_case_simps square_def circle_def area_message_def
  unknown_message_def usage_message_def exit_status_def

lemma run_square_4:
  "run pow_rn [''area_w_arguments.py'', ''square'', ''4''] =
     \<lparr>argv = [''area_w_arguments.py'', ''square'', ''4''],
      stdout = ''Area = 16.00'' @ [newline], var_x = Some ''4'', raised = None\<rparr>"
  by (simp add: run_eval py_eval)

lemma run_circle_2:
  "run pow_rn [''area_w_arguments.py'', ''circle'', ''2''] =
     \<lparr>argv = [''area_w_arguments.py'', ''circle'', ''2''],
      stdout = ''Area = 12.57'' @ [newline], var_x = Some ''2'', raised = None\<rparr>"
  by (simp add: run_eval py_eval)

section \<open>What a run raises and prints, by the value argument\<close>

lemma square_py: "square (py_ops pw) f = float_pow2 pw f"
  by (simp add: square_def)

lemma circle_py:
  "circle (py_ops pw) f =
     bind_result (float_pow2 pw f) (\<lambda>r2. Inr (float_mul (float_lit 314159 5) r2))"
  by (simp add: circle_def)

lemma area_Inl_iff:
  assumes "area = square (py_ops pw) \<or> area = circle (py_ops pw)"
  shows "bind_result (py_float v) area = Inl e \<longleftrightarrow>
     (py_float v = Inl ValueError \<and> e = ValueError) \<or>
     (\<exists>f. py_float v = Inr f \<and> float_pow2 pw f = Inl OverflowError \<and> e = OverflowError)"
  using assms
  by (auto simp: bind_result_eq_Inl_iff square_py circle_py float_pow2_Inl_iff
      dest: py_float_error)

lemma raised_run_value:
  assumes "s = ''square'' \<and> area = square (py_ops pw) \<or> s = ''circle'' \<and> area = circle (py_ops pw)"
  shows "raised (run pw (prog # s # v # rest)) =
     (case bind_result (py_float v) area of Inl e \<Rightarrow> Some e | Inr a \<Rightarrow> None)"
  using assms by (auto simp: run_def main_case_simps split: sum.split)

lemma stdout_run_value:
  assumes "s = ''square'' \<and> area = square (py_ops pw) \<or> s = ''circle'' \<and> area = circle (py_ops pw)"
  shows "stdout (run pw (prog # s # v # rest)) =
     (case bind_result (py_float v) area of
        Inl e \<Rightarrow> []
      | Inr a \<Rightarrow> ''Area = '' @ format_f2 a @ [newline])"
  using assms by (auto simp: run_def main_case_simps area_message_def split: sum.split)

lemma raised_area_cases:
  assumes "s = ''square'' \<and> area = square (py_ops pw) \<or> s = ''circle'' \<and> area = circle (py_ops pw)"
  shows "raised (run pw (prog # s # v # rest)) =
     (case py_float v of
        Inl e \<Rightarrow> Some ValueError
      | Inr f \<Rightarrow> (case float_pow2 pw f of Inl e \<Rightarrow> Some OverflowError | Inr r \<Rightarrow> None))"
proof (cases "bind_result (py_float v) area")
  case (Inl e)
  with assms area_Inl_iff [of area pw v e] show ?thesis
    by (auto simp: raised_run_value [OF assms])
next
  case (Inr a)
  with assms area_Inl_iff [of area pw v] show ?thesis
    by (auto simp: raised_run_value [OF assms] square_py circle_py bind_result_eq_Inr_iff
        split: sum.split)
qed

lemma raised_run_square:
  "raised (run pw (prog # ''square'' # v # rest)) =
     (case py_float v of
        Inl e \<Rightarrow> Some ValueError
      | Inr f \<Rightarrow> (case float_pow2 pw f of Inl e \<Rightarrow> Some OverflowError | Inr r \<Rightarrow> None))"
  by (rule raised_area_cases) simp

lemma raised_run_circle:
  "raised (run pw (prog # ''circle'' # v # rest)) =
     (case py_float v of
        Inl e \<Rightarrow> Some ValueError
      | Inr f \<Rightarrow> (case float_pow2 pw f of Inl e \<Rightarrow> Some OverflowError | Inr r \<Rightarrow> None))"
  by (rule raised_area_cases) simp

lemma raised_run_simple:
  "raised (run pw []) = Some IndexError"
  "raised (run pw [prog]) = Some SystemExit"
  "raised (run pw [prog, ''square'']) = Some IndexError"
  "raised (run pw [prog, ''circle'']) = Some IndexError"
  "s \<noteq> ''square'' \<Longrightarrow> s \<noteq> ''circle'' \<Longrightarrow> raised (run pw (prog # s # rest)) = None"
  by (simp_all add: run_def main_case_simps)

lemmas raised_run = raised_run_simple raised_run_square raised_run_circle

lemma run_value_ok:
  assumes "s = ''square'' \<and> area = square (py_ops pw) \<or> s = ''circle'' \<and> area = circle (py_ops pw)"
    and "raised (run pw (prog # s # v # rest)) = None"
  obtains f a where "py_float v = Inr f" "area f = Inr a"
    "stdout (run pw (prog # s # v # rest)) = ''Area = '' @ format_f2 a @ [newline]"
proof -
  from assms(2) obtain a where a: "bind_result (py_float v) area = Inr a"
    by (auto simp: raised_run_value [OF assms(1)] split: sum.splits)
  then obtain f where "py_float v = Inr f" "area f = Inr a"
    by (auto simp: bind_result_eq_Inr_iff)
  with a that show thesis
    by (simp add: stdout_run_value [OF assms(1)])
qed

lemma area_nonneg:
  assumes "area = square (py_ops pw) \<or> area = circle (py_ops pw)" and "area f = Inr a"
    and "\<not> sign_bit (fst (pw (float_abs f)))" and "wf_float (fst (pw (float_abs f)))"
  shows "wf_float a \<and> \<not> sign_bit a"
  using assms(1)
proof
  assume "area = square (py_ops pw)"
  with assms(2-) show ?thesis
    by (simp add: square_py wf_float_pow2 sign_bit_float_pow2)
next
  assume "area = circle (py_ops pw)"
  with assms(2) obtain r2 where "float_pow2 pw f = Inr r2" "a = float_mul (float_lit 314159 5) r2"
    by (auto simp: circle_py bind_result_eq_Inr_iff)
  with assms(3) show ?thesis
    by (simp add: wf_float_mul sign_bit_float_mul_nonneg sign_bit_float_pow2)
qed

lemma circle_product_range:
  fixes P R x :: real
  assumes P: "2 \<le> P" "P \<le> 3.2" and R: "\<bar>R - x\<bar> \<le> x / 2 ^ 52"
    and x: "2 powi (- 1022) \<le> x" "x \<le> 2 powi 1021"
  shows "2 powi (- 1022) \<le> P * R" "P * R < 2 powi 1023"
proof -
  have x0: "0 \<le> x"
    using x(1) by (rule order_trans [rotated]) simp
  from x0 have "x / 2 ^ 52 \<le> x / 5"
    by simp
  with R have "\<bar>R - x\<bar> \<le> x / 5"
    by (rule order_trans)
  with x0 have lo: "x / 2 \<le> R" and hi: "R \<le> 1.2 * x"
    by linarith+
  from lo x0 have R0: "0 \<le> R" by simp
  have xpos: "0 < x"
    using x(1) by (rule less_le_trans [rotated]) simp
  have "2 powi (- 1022) \<le> 2 * (x / 2)"
    using x(1) by simp
  also have "\<dots> \<le> P * R"
    using P(1) lo x0 by (intro mult_mono) simp_all
  finally show "2 powi (- 1022) \<le> P * R" .
  have "P * R \<le> 3.2 * (1.2 * x)"
    using P hi R0 by (intro mult_mono) simp_all
  also have "\<dots> < 4 * x"
    using xpos by simp
  also have "\<dots> \<le> 4 * 2 powi 1021"
    using x(2) by simp
  also have "\<dots> = 2 powi 1023"
    by (simp add: power_int_add [of 2 2 1021, simplified])
  finally show "P * R < 2 powi 1023" .
qed

lemma float_mul_pi_overflow:
  assumes "is_finite r" "\<not> sign_bit r"
    and "real overflow_threshold \<le> abs_val (float_lit 314159 5) * abs_val r"
  shows "float_mul (float_lit 314159 5) r = Infinity False"
proof -
  have P: "is_finite (float_lit 314159 5)" "\<not> sign_bit (float_lit 314159 5)"
    by (simp_all add: float_lit_pi)
  from assms(3) have "is_inf (float_mul (float_lit 314159 5) r)"
    by (simp add: float_mul_inf_iff [OF P(1) assms(1)])
  moreover from P(2) assms(2) have "\<not> sign_bit (float_mul (float_lit 314159 5) r)"
    by (rule sign_bit_float_mul_nonneg)
  ultimately show ?thesis
    by (cases "float_mul (float_lit 314159 5) r") simp_all
qed

section \<open>Properties of the script on binary64 floats\<close>

text \<open>
  C13: Which exception ends a run, for every argument vector and every C
  library: \<open>SystemExit\<close> exactly with the program name alone; \<open>IndexError\<close>
  exactly with no argument vector at all or a recognised shape without a value;
  \<open>ValueError\<close> exactly when \<^verbatim>\<open>float(x)\<close> rejects the value of a recognised shape;
  \<open>OverflowError\<close> exactly when \<^verbatim>\<open>x**2\<close> raises on the converted value; and never
  \<open>NameError\<close>: \<open>x\<close> is always bound before it is read.
\<close>

theorem run_raises_iff:
  "(raised (run pw av) = Some SystemExit \<longleftrightarrow> length av = 1) \<and>
   (raised (run pw av) = Some IndexError \<longleftrightarrow>
      av = [] \<or> (\<exists>prog s. av = [prog, s] \<and> (s = ''square'' \<or> s = ''circle''))) \<and>
   (raised (run pw av) = Some ValueError \<longleftrightarrow>
      (\<exists>prog s v rest. av = prog # s # v # rest \<and> (s = ''square'' \<or> s = ''circle'') \<and>
         py_float v = Inl ValueError)) \<and>
   (raised (run pw av) = Some OverflowError \<longleftrightarrow>
      (\<exists>prog s v rest f. av = prog # s # v # rest \<and> (s = ''square'' \<or> s = ''circle'') \<and>
         py_float v = Inr f \<and> float_pow2 pw f = Inl OverflowError)) \<and>
   raised (run pw av) \<noteq> Some NameError"
proof (cases av rule: argv_cases)
  case (square prog v rest)
  then show ?thesis
    by (auto simp: raised_run dest: py_float_error float_pow2_raises_OverflowError
        split: sum.splits)
next
  case (circle prog v rest)
  then show ?thesis
    by (auto simp: raised_run dest: py_float_error float_pow2_raises_OverflowError
        split: sum.splits)
qed (auto simp: raised_run)

text \<open>
  C17: A value that \<^verbatim>\<open>float(x)\<close> converts to an infinity or a NaN is not an error:
  for both shapes the script prints \<open>Area = inf\<close> or \<open>Area = nan\<close> and ends
  normally, whatever the C library.
\<close>

theorem nonfinite_value_prints_inf_or_nan:
  assumes "s = ''square'' \<or> s = ''circle''" and "py_float v = Inr f" and "\<not> is_finite f"
  shows "stdout (run pw (prog # s # v # rest)) =
           ''Area = '' @ (if is_nan f then ''nan'' else ''inf'') @ [newline] \<and>
         raised (run pw (prog # s # v # rest)) = None"
  using assms
  by (auto simp: run_def main_case_simps area_message_def square_py circle_py
      float_pow2_nonfinite float_mul_pi_nonfinite)

text \<open>
  C16: With a C library that is within one unit in the last place at the
  converted value \<open>f\<close>, and \<open>f\<^sup>2\<close> in the normal range up to \<open>2\<^sup>1\<^sup>0\<^sup>2\<^sup>1\<close>, the number
  that \<open>circle\<close> prints is within half a hundredth plus a relative error of
  \<open>5 * 2\<^sup>-\<^sup>5\<^sup>3\<close> of \<open>3.14159 * f\<^sup>2\<close>: the roundings of the literal, of the square,
  of the product and of \<^verbatim>\<open>'%.2f'\<close> together.
\<close>

theorem circle_area_accuracy:
  assumes pf: "py_float v = Inr f" and fin: "is_finite f" and libm: "libm_faithful_at pw f"
    and normal: "2 powi (- 1022) \<le> (valof f)\<^sup>2" and le: "(valof f)\<^sup>2 \<le> 2 powi 1021"
  shows "\<exists>h. stdout (run pw (prog # ''circle'' # v # rest)) =
               ''Area = '' @ nat_to_str (h div 100) @ ''.'' @ two_digits h @ [newline] \<and>
             \<bar>real h / 100 - 314159 / 100000 * (valof f)\<^sup>2\<bar>
               \<le> 1 / 200 + 5 / 2 ^ 53 * (314159 / 100000 * (valof f)\<^sup>2)"
proof -
  define x where "x = (abs_val f)\<^sup>2"
  define P where "P = float_lit 314159 5"
  from libm fin obtain r where r: "float_pow2 pw f = Inr r" "is_finite r" "\<not> sign_bit r"
    and R: "\<bar>abs_val r - x\<bar> \<le> x / 2 ^ 52"
    unfolding x_def by (rule float_pow2_faithful)
  from normal le have x: "2 powi (- 1022) \<le> x" "x \<le> 2 powi 1021"
    by (simp_all add: x_def)
  note range = circle_product_range [OF pi_float_bounds R x]
  have P: "is_finite P" "\<not> sign_bit P"
    by (simp_all add: P_def float_lit_pi)
  from range(2) overflow_threshold_bounds(1) have "\<not> real overflow_threshold \<le> abs_val P * abs_val r"
    by (simp add: P_def)
  then have fa: "is_finite (float_mul P r)"
    using float_mul_inf_iff [OF P(1) r(2)] float_mul_not_nan [OF P(1) r(2)]
    by (simp add: is_finite_iff [of "float_mul P r"])
  have A: "\<bar>abs_val (float_mul P r) - abs_val P * abs_val r\<bar> \<le> 1 / 2 ^ 53 * (abs_val P * abs_val r)"
    using float_mul_error [OF P(1) r(2) fa] range(1) by (simp add: P_def)
  from R have R': "\<bar>abs_val r - x\<bar> \<le> 2 * (1 / 2 ^ 53) * x"
    by simp
  have x0: "0 \<le> x" by (simp add: x_def)
  have "\<bar>abs_val (float_mul P r) - 314159 / 100000 * x\<bar> \<le> 5 * (1 / 2 ^ 53) * (314159 / 100000 * x)"
    using pi_float_error [folded P_def] R' A x0 by (intro rel_error_compose) simp_all
  then have err: "\<bar>abs_val (float_mul P r) - 314159 / 100000 * x\<bar> \<le> 5 / 2 ^ 53 * (314159 / 100000 * x)"
    by simp
  from P(2) r(3) have "\<not> sign_bit (float_mul P r)"
    by (rule sign_bit_float_mul_nonneg)
  from format_f2_digits [OF fa this] obtain h
    where h: "format_f2 (float_mul P r) = nat_to_str (h div 100) @ ''.'' @ two_digits h"
      "\<bar>real h / 100 - abs_val (float_mul P r)\<bar> \<le> 1 / 200"
    by blast
  from h(2) err have "\<bar>real h / 100 - 314159 / 100000 * x\<bar> \<le> 1 / 200 + 5 / 2 ^ 53 * (314159 / 100000 * x)"
    by linarith
  moreover have "stdout (run pw (prog # ''circle'' # v # rest)) =
      ''Area = '' @ nat_to_str (h div 100) @ ''.'' @ two_digits h @ [newline]"
    using pf r(1) h(1) by (simp add: stdout_run_value [of _ "circle (py_ops pw)"] circle_py P_def)
  ultimately show ?thesis by (auto simp: x_def)
qed

text \<open>
  C18: When the C library's square is never negative and well formed at the
  converted value, a run that ends normally on a recognised shape prints one
  line \<open>Area = \<close> followed by the text of a well-formed float without a minus
  sign: a number of hundredths, \<open>inf\<close> or \<open>nan\<close>.
\<close>

theorem area_never_negative:
  assumes shape: "s = ''square'' \<or> s = ''circle''" and pf: "py_float v = Inr f"
    and libm: "\<not> sign_bit (fst (pw (float_abs f)))" "wf_float (fst (pw (float_abs f)))"
    and ok: "raised (run pw (prog # s # v # rest)) = None"
  shows "\<exists>a. stdout (run pw (prog # s # v # rest)) = ''Area = '' @ format_f2 a @ [newline] \<and>
           wf_float a \<and> \<not> sign_bit a \<and> hd (format_f2 a) \<noteq> CHR ''-''"
proof -
  define area where "area = (if s = ''square'' then square (py_ops pw) else circle (py_ops pw))"
  with shape have sel:
    "s = ''square'' \<and> area = square (py_ops pw) \<or> s = ''circle'' \<and> area = circle (py_ops pw)"
    by auto
  from sel ok obtain f' a where a: "py_float v = Inr f'" "area f' = Inr a"
    "stdout (run pw (prog # s # v # rest)) = ''Area = '' @ format_f2 a @ [newline]"
    by (rule run_value_ok)
  from a(1) pf have "f' = f" by simp
  with sel a(2) libm have "wf_float a \<and> \<not> sign_bit a"
    by (intro area_nonneg [of area pw f a]) auto
  with a(3) show ?thesis
    by (auto simp: format_f2_minus_iff)
qed

text \<open>
  C26: The text \<^verbatim>\<open>'%.2f'\<close> prints is accepted by \<^verbatim>\<open>float(x)\<close>, which returns the
  printed number of hundredths rounded to binary64, with the sign; \<open>inf\<close>,
  \<open>-inf\<close> and \<open>nan\<close> read back as themselves.
\<close>

theorem parse_format:
  "py_float (format_f2 x) =
     Inr (case x of Finite s m e \<Rightarrow> round_nd s (hundredths x) 100 | _ \<Rightarrow> x)"
proof (cases x)
  case (Finite s m e)
  show ?thesis
    unfolding Finite format_f2_finite
    using py_float_decimal [of "nat_to_str (hundredths (Finite s m e) div 100)"
        "two_digits (hundredths (Finite s m e))" s]
    by (simp add: str_to_nat_hundredths)
next
  case (Infinity s)
  then show ?thesis by (cases s) (simp_all add: py_eval)
next
  case NaN
  then show ?thesis by (simp add: py_eval)
qed

text \<open>
  C19: \<open>circle\<close> does not raise when only the product overflows: if \<^verbatim>\<open>r**2\<close> is
  finite but \<open>3.14159 * r\<^sup>2\<close> is not below the overflow threshold, the script
  prints \<open>Area = inf\<close> and ends normally.
\<close>

theorem circle_overflow_prints_inf:
  assumes "py_float v = Inr f" and "float_pow2 pw f = Inr r" and "is_finite r" "\<not> sign_bit r"
    and "real overflow_threshold \<le> abs_val (float_lit 314159 5) * abs_val r"
  shows "stdout (run pw (prog # ''circle'' # v # rest)) = ''Area = inf'' @ [newline] \<and>
         raised (run pw (prog # ''circle'' # v # rest)) = None"
  using assms(1,2) float_mul_pi_overflow [OF assms(3-5)]
  by (simp add: run_def main_case_simps area_message_def circle_py)

section \<open>The specification's examples, as instances of the script's properties\<close>

text \<open>
  Each of the following runs the script on binary64 floats, with the correctly
  rounded C library \<open>pow_rn\<close>, at one of the invocations the specification
  lists, through the general theorem it is an instance of.
\<close>

theorem unknown_shape_message_witness:
  "observable (main (py_ops pow_rn) [''area_w_arguments.py'', ''triangle'', ''5'']) =
     (''I do not know that shape'' @ [newline], None) \<and>
   exit_status (main (py_ops pow_rn) [''area_w_arguments.py'', ''triangle'', ''5'']) = 0 \<and>
   var_x (main (py_ops pow_rn) [''area_w_arguments.py'', ''triangle'', ''5'']) = None"
  using unknown_shape_message [where s = "''triangle''" and ops = "py_ops pow_rn"
      and prog = "''area_w_arguments.py''" and rest = "[''5'']"]
  by simp

theorem square_prints_area_witness:
  "observable (main (py_ops pow_rn) [''area_w_arguments.py'', ''square'', ''4'']) =
     (''Area = 16.00'' @ [newline], None) \<and>
   exit_status (main (py_ops pow_rn) [''area_w_arguments.py'', ''square'', ''4'']) = 0"
  using square_prints_area [where ops = "py_ops pow_rn" and v = "''4''"
      and prog = "''area_w_arguments.py''" and f = "Finite False (2 ^ 52) (- 50)"
      and a = "Finite False (2 ^ 52) (- 48)" and rest = "[]"]
  by (simp add: py_eval square_def)

theorem circle_prints_area_witness:
  "observable (main (py_ops pow_rn) [''area_w_arguments.py'', ''circle'', ''2'']) =
     (''Area = 12.57'' @ [newline], None) \<and>
   exit_status (main (py_ops pow_rn) [''area_w_arguments.py'', ''circle'', ''2'']) = 0"
  using circle_prints_area [where ops = "py_ops pow_rn" and v = "''2''"
      and prog = "''area_w_arguments.py''" and f = "Finite False (2 ^ 52) (- 51)"
      and a = "Finite False 7074231776675438 (- 49)" and rest = "[]"]
  by (simp add: py_eval circle_def)

theorem missing_value_raises_IndexError_witness:
  "observable (main (py_ops pow_rn) [''area_w_arguments.py'', ''square'']) =
     ([], Some IndexError) \<and>
   exit_status (main (py_ops pow_rn) [''area_w_arguments.py'', ''square'']) = 1"
  using missing_value_raises_IndexError [where s = "''square''" and ops = "py_ops pow_rn"
      and prog = "''area_w_arguments.py''"]
  by simp

theorem conversion_error_propagates_witness:
  "observable (main (py_ops pow_rn) [''area_w_arguments.py'', ''circle'', ''abc'']) =
     ([], Some ValueError) \<and>
   var_x (main (py_ops pow_rn) [''area_w_arguments.py'', ''circle'', ''abc'']) = Some ''abc''"
  using conversion_error_propagates [where s = "''circle''" and ops = "py_ops pow_rn"
      and v = "''abc''" and e = ValueError and prog = "''area_w_arguments.py''" and rest = "[]"]
  by (simp add: py_eval)

theorem power_error_propagates_witness:
  "observable (main (py_ops pow_rn) [''area_w_arguments.py'', ''square'', ''1e200'']) =
     ([], Some OverflowError)"
  using power_error_propagates [where s = "''square''" and ops = "py_ops pow_rn"
      and v = "''1e200''" and f = "Finite False 5883593420661338 612" and e = OverflowError
      and prog = "''area_w_arguments.py''" and rest = "[]"]
  by (simp add: py_eval)

theorem failure_prints_nothing_witness:
  "exit_status (main (py_ops pow_rn) [''area_w_arguments.py'', ''circle'']) \<noteq> 0 \<and>
   stdout (main (py_ops pow_rn) [''area_w_arguments.py'', ''circle'']) = []"
  using failure_prints_nothing [of "py_ops pow_rn" "[''area_w_arguments.py'', ''circle'']"]
  by (simp add: main_case_simps exit_status_def)

theorem nonfinite_value_prints_inf_or_nan_witness:
  "stdout (run pow_rn [''area_w_arguments.py'', ''square'', ''nan'']) = ''Area = nan'' @ [newline] \<and>
   raised (run pow_rn [''area_w_arguments.py'', ''square'', ''nan'']) = None"
  using nonfinite_value_prints_inf_or_nan [where s = "''square''" and v = "''nan''" and f = NaN
      and pw = pow_rn and prog = "''area_w_arguments.py''" and rest = "[]"]
  by (simp add: py_eval)

theorem circle_area_accuracy_witness:
  "\<exists>h. stdout (run pow_rn [''area_w_arguments.py'', ''circle'', ''2'']) =
          ''Area = '' @ nat_to_str (h div 100) @ ''.'' @ two_digits h @ [newline] \<and>
        \<bar>real h / 100 - 314159 / 100000 * (valof (Finite False (2 ^ 52) (- 51)))\<^sup>2\<bar>
          \<le> 1 / 200 + 5 / 2 ^ 53 * (314159 / 100000 * (valof (Finite False (2 ^ 52) (- 51)))\<^sup>2)"
  using circle_area_accuracy [where v = "''2''" and f = "Finite False (2 ^ 52) (- 51)"
      and pw = pow_rn and prog = "''area_w_arguments.py''" and rest = "[]"]
  by (simp add: py_float_2 libm_faithful_at_def pow_rn_def py_eval)

theorem area_never_negative_witness:
  "\<exists>a. stdout (run pow_rn [''area_w_arguments.py'', ''circle'', ''2'']) =
          ''Area = '' @ format_f2 a @ [newline] \<and>
        wf_float a \<and> \<not> sign_bit a \<and> hd (format_f2 a) \<noteq> CHR ''-''"
  using area_never_negative [where s = "''circle''" and v = "''2''"
      and f = "Finite False (2 ^ 52) (- 51)" and pw = pow_rn
      and prog = "''area_w_arguments.py''" and rest = "[]"]
  by (simp add: py_float_2 run_circle_2 pow_rn_def py_eval)

theorem circle_overflow_prints_inf_witness:
  "stdout (run pow_rn [''area_w_arguments.py'', ''circle'', ''1e154'']) = ''Area = inf'' @ [newline] \<and>
   raised (run pow_rn [''area_w_arguments.py'', ''circle'', ''1e154'']) = None"
  using circle_overflow_prints_inf [where v = "''1e154''" and f = "Finite False 6717876107567089 459"
      and r = "Finite False 5010420900022432 971" and pw = pow_rn
      and prog = "''area_w_arguments.py''" and rest = "[]"]
  by (simp add: py_eval float_lit_pi overflow_threshold_def)

section \<open>The float operations at concrete values\<close>

text \<open>
  The accuracy and well-formedness theorems of \<open>Binary64\<close>, \<open>Rounding\<close> and
  \<open>Decimal\<close> applied to the values the examples compute with.
\<close>

theorem round_nd_nearest_witness:
  "\<bar>valof (round_nd False 1 10) - (if False then - 1 else 1) * (real 1 / real 10)\<bar>
     \<le> \<bar>valof (Finite False (2 ^ 52) (- 56)) - (if False then - 1 else 1) * (real 1 / real 10)\<bar>"
  using round_nd_nearest [of 10 False 1 "Finite False (2 ^ 52) (- 56)"]
  by (simp add: py_eval)

theorem round_nd_representable_witness:
  "round_nd False (2 ^ 52 * 2 ^ nat (- 50)) (2 ^ nat (- (- 50))) = Finite False (2 ^ 52) (- 50)"
  using round_nd_representable [of False "2 ^ 52" "- 50"]
  by simp

theorem float_ops_wf_witness:
  "wf_float (float_lit 314159 5) \<and>
   wf_float (float_mul (Finite True 3 5) (Infinity False)) \<and>
   wf_float (fst (pow_rn (float_abs (Finite True (3 * 2 ^ 51) (- 51))))) \<and>
   float_pow2 pow_rn (Finite True (3 * 2 ^ 51) (- 51)) = Inr (Finite False (9 * 2 ^ 49) (- 49)) \<and>
   wf_float (Finite False (9 * 2 ^ 49) (- 49))"
  using float_ops_wf [where m = 314159 and k = 5 and a = "Finite True 3 5" and b = "Infinity False"
      and pw = pow_rn and x = "Finite True (3 * 2 ^ 51) (- 51)"]
  by (simp add: py_eval pow_rn_def)

theorem float_pow2_raises_iff_witness:
  "libm_exact_at pow_rn (Finite False 5883593420661338 612) \<and>
   float_pow2 pow_rn (Finite False 5883593420661338 612) = Inl OverflowError \<and>
   real overflow_threshold \<le> (valof (Finite False 5883593420661338 612))\<^sup>2"
  using float_pow2_raises_iff [where pw = pow_rn and x = "Finite False 5883593420661338 612"
      and err = OverflowError]
  by (simp add: py_eval)

theorem float_mul_correctly_rounded_witness:
  "\<bar>valof (float_mul (Finite False 7074231776675438 (- 51)) (Finite True (2 ^ 52) (- 50))) -
      valof (Finite False 7074231776675438 (- 51)) * valof (Finite True (2 ^ 52) (- 50))\<bar>
     \<le> \<bar>valof (Finite False 7074231776675438 (- 51)) * valof (Finite True (2 ^ 52) (- 50))\<bar> / 2 ^ 53"
  using float_mul_correctly_rounded [of "Finite False 7074231776675438 (- 51)"
      "Finite True (2 ^ 52) (- 50)"]
  by (simp add: py_eval valof_def)

theorem round_nd_finite_iff_witness:
  "is_finite (round_nd True 1 10) \<longleftrightarrow> real 1 / real 10 < 2 ^ 1024 - 2 ^ 970"
  using round_nd_finite_iff [of 10 True 1]
  by simp

theorem rne_div_half_even_witness:
  "\<bar>real (rne_div 25 2) - real 25 / real 2\<bar> \<le> 1 / 2 \<and>
   \<bar>real (rne_div 25 2) - real 25 / real 2\<bar> = 1 / 2 \<and> even (rne_div 25 2)"
  using rne_div_half_even [of 2 25]
  by (simp add: py_eval)

theorem ilog2_floor_log_witness:
  "ilog2 314159 100000 = \<lfloor>log 2 (real 314159 / real 100000)\<rfloor>"
  using ilog2_floor_log [of 314159 100000]
  by simp


end
